theory Spec2Isabelle
  imports Main
begin

section \<open>Data model\<close>

text \<open>
  The two entry points \<^verbatim>\<open>src/index.ts\<close> (users) and \<^verbatim>\<open>src/index-org.ts\<close>
  (organizations) are embedded side by side. A JavaScript string is a \<^typ>\<open>string\<close>,
  one \<^typ>\<open>char\<close> per code unit. Everything the scripts do to the outside world
  (console, timers, remote calls, the log file) is recorded, in order, in the
  \<open>trace\<close> of the run state; the answers of the outside world are read from a
  \<open>world\<close> record.
\<close>

datatype json =
    JNull
  | JBool bool
  | JNum int
  | JStr string
  | JArr "json list"
  | JObj "(string \<times> json) list"

text \<open>A raw record is one element of the input array, typed \<^verbatim>\<open>any\<close> by the
  source: any JSON value. The own properties of an object are a list of keys
  and values.\<close>

type_synonym raw_record = json

type_synonym properties = "(string \<times> json) list"

datatype fatal = ConfigurationError string | IOFailure | FormatFailure | TypeError

text \<open>
  \<^verbatim>\<open>v[key]\<close> (written \<^verbatim>\<open>v.key\<close>). On \<^verbatim>\<open>null\<close> the read throws a
  \<^verbatim>\<open>TypeError\<close>; on every other value it gives the property of an object
  that has it and \<^verbatim>\<open>undefined\<close> (\<open>None\<close>) otherwise.
\<close>

definition get_prop :: "raw_record \<Rightarrow> string \<Rightarrow> json option" where
  "get_prop v key = (case v of JObj props \<Rightarrow> map_of props key | _ \<Rightarrow> None)"

definition read_property :: "raw_record \<Rightarrow> string \<Rightarrow> fatal + json option" where
  "read_property v key = (if v = JNull then Inl TypeError else Inr (get_prop v key))"

text \<open>
  What a \<^verbatim>\<open>catch (error)\<close> of the drivers can receive: the validator's error, which
  has no \<^verbatim>\<open>status\<close> property, or an error thrown by the remote client, whose
  \<^verbatim>\<open>status\<close> may be any number or missing (a network failure).
\<close>

datatype error =
    ZodError "string list"
  | GatewayError "int option" string

fun status :: "error \<Rightarrow> int option" where
  "status (ZodError issues) = None"
| "status (GatewayError st body) = st"

record user =
  oid :: string
  email :: string
  first_name :: "string option"
  last_name :: "string option"
  phone :: "string option"
  password :: "string option"
  organization_id :: "string option"
  user_locale :: "string option"
  mobile_organization_id :: "string option"
  role_id :: "string option"
  super_admin :: "bool option"

record private_metadata =
  mongoId :: string
  organizationId :: "string option"
  mobileOrganizationId :: "string option"

record public_metadata =
  roleId :: string
  locale_param :: string
  superAdmin :: bool

text \<open>The argument object of \<^verbatim>\<open>clerkClient.users.createUser\<close>; \<open>None\<close> is a key
  that is missing or \<^verbatim>\<open>undefined\<close>.\<close>

record user_params =
  externalId :: string
  emailAddress :: "string list"
  firstName :: "string option"
  lastName :: "string option"
  privateMetadata :: private_metadata
  publicMetadata :: public_metadata
  password_param :: "string option"
  skipPasswordRequirement :: "bool option"

record organization =
  org_oid :: string
  organization_name :: string
  org_email :: string

record org_private_metadata =
  org_mongoId :: string
  external_id :: string

record org_params =
  name :: string
  createdBy :: string
  org_privateMetadata :: org_private_metadata

text \<open>The payload of \<^verbatim>\<open>appendLog\<close>: the key that carries the record's
  \<^verbatim>\<open>_id\<close>, that \<^verbatim>\<open>_id\<close> as the raw record has it, and the error spread
  into the entry.\<close>

record log_entry =
  id_key :: string
  record_id :: "json option"
  details :: error

text \<open>What a run does to the outside world. \<open>Cooldown\<close> and
  \<open>RateLimitCooldown\<close> are the two waits; they carry the number of
  milliseconds handed to \<^verbatim>\<open>setTimeout\<close>.\<close>

datatype event =
    ConsoleLog string
  | ConsoleError string
  | ReadFile string
  | Cooldown int
  | RateLimitCooldown int
  | CreateUser user_params
  | GetUserList "string list"
  | CreateOrganization org_params
  | AppendLog log_entry

text \<open>A user as the remote service lists it.\<close>

record remote_user =
  user_id :: string

text \<open>
  The outside world. The remote service answers the call made at clock tick \<open>t\<close>
  (the number of remote calls made before it), so that the same request can be
  answered differently on a retry. \<open>is_email\<close> is the address check of the
  validation library; \<open>readFile\<close> is \<^verbatim>\<open>JSON.parse(fs.readFileSync(..))\<close> on a file
  holding a JSON array, or the failure to read or parse it. Appending to the
  log file is taken to succeed.
\<close>

record world =
  is_email :: "string \<Rightarrow> bool"
  users_createUser :: "nat \<Rightarrow> user_params \<Rightarrow> error + unit"
  users_getUserList :: "nat \<Rightarrow> string list \<Rightarrow> error + remote_user list"
  organizations_createOrganization :: "nat \<Rightarrow> org_params \<Rightarrow> error + unit"
  readFile :: "string \<Rightarrow> fatal + raw_record list"

text \<open>The module-level variables and the process's effects so far.\<close>

record state =
  migrated :: nat
  alreadyExists :: nat
  spinner_text :: string
  clock :: nat
  trace :: "event list"

definition init :: state where
  "init = \<lparr>migrated = 0, alreadyExists = 0, spinner_text = [], clock = 0, trace = []\<rparr>"

definition emit :: "event \<Rightarrow> state \<Rightarrow> state" where
  "emit e s = s\<lparr>trace := trace s @ [e]\<rparr>"


section \<open>JavaScript helpers\<close>

text \<open>Number to string, as a template literal renders an integer.\<close>

function show_nat :: "nat \<Rightarrow> string" where
  "show_nat n =
     (if n < 10 then [''0123456789'' ! n]
      else show_nat (n div 10) @ [''0123456789'' ! (n mod 10)])"
  by pat_completeness auto
termination
  by (relation "measure (\<lambda>n. n)") auto

definition show_int :: "int \<Rightarrow> string" where
  "show_int i = (if i < 0 then CHR ''-'' # show_nat (nat (- i)) else show_nat (nat i))"

text \<open>\<^verbatim>\<open>s.split(c)\<close> for a one-character separator.\<close>

fun split_on :: "char \<Rightarrow> string \<Rightarrow> string list" where
  "split_on c [] = [[]]"
| "split_on c (x # xs) =
     (if x = c then [] # split_on c xs
      else (case split_on c xs of [] \<Rightarrow> [[x]] | w # ws \<Rightarrow> (x # w) # ws))"

text \<open>\<^verbatim>\<open>xs[i]\<close>: \<^verbatim>\<open>undefined\<close> out of range.\<close>

definition index :: "'a list \<Rightarrow> nat \<Rightarrow> 'a option" where
  "index xs i = (if i < length xs then Some (xs ! i) else None)"

text \<open>\<^verbatim>\<open>xs.slice(k)\<close>: a negative start counts from the end.\<close>

definition slice :: "int \<Rightarrow> 'a list \<Rightarrow> 'a list" where
  "slice k xs =
     (if k < 0 then drop (nat (max (int (length xs) + k) 0)) xs else drop (nat k) xs)"

text \<open>
  The delay of a timer set with \<^verbatim>\<open>setTimeout(f, ms)\<close>, in milliseconds: the
  runtime replaces an argument below 1 or above \<open>2\<^sup>3\<^sup>1 - 1\<close> by 1.
\<close>

definition TIMEOUT_MAX :: int where
  "TIMEOUT_MAX = 2147483647"

definition timer_duration :: "int \<Rightarrow> int" where
  "timer_duration ms = (if 1 \<le> ms \<and> ms \<le> TIMEOUT_MAX then ms else 1)"

section \<open>Configuration and the startup checks (both entry points, lines 9-25)\<close>

text \<open>
  The environment of the process. The three numeric variables are given as
  the integer \<^verbatim>\<open>parseInt\<close> reads from them, \<open>None\<close> when the variable is
  not set.
\<close>

record env =
  CLERK_SECRET_KEY :: "string option"
  DELAY_MS :: "int option"
  RETRY_DELAY_MS :: "int option"
  IMPORT_TO_DEV_INSTANCE :: "string option"
  OFFSET_var :: "int option"
  argv2 :: "string option"

record config =
  SECRET_KEY :: string
  DELAY :: int
  RETRY_DELAY :: int
  IMPORT_TO_DEV :: string
  OFFSET :: int

text \<open>The messages of the two errors thrown at startup.\<close>

definition key_required_message :: string where
  "key_required_message =
     ''CLERK_SECRET_KEY is required. Please copy .env.example to .env and add your key.''"

definition development_instance_message :: string where
  "development_instance_message =
     ''The Clerk Secret Key provided is for a development instance. Development instances are limited to 500 users and do not share their userbase with production instances. If you want to import users to your development instance, please set 'IMPORT_TO_DEV_INSTANCE' in your .env to 'true'.''"

definition startup :: "env \<Rightarrow> fatal + config" where
  "startup e =
     (let DELAY = (case DELAY_MS e of None \<Rightarrow> 1000 | Some d \<Rightarrow> d);
          RETRY_DELAY = (case RETRY_DELAY_MS e of None \<Rightarrow> 10000 | Some d \<Rightarrow> d);
          IMPORT_TO_DEV = (case IMPORT_TO_DEV_INSTANCE e of None \<Rightarrow> ''false'' | Some f \<Rightarrow> f);
          OFFSET = (case OFFSET_var e of None \<Rightarrow> 0 | Some k \<Rightarrow> k)
      in case CLERK_SECRET_KEY e of
           None \<Rightarrow> Inl (ConfigurationError key_required_message)
         | Some key \<Rightarrow>
             if key = [] then Inl (ConfigurationError key_required_message)
             else if index (split_on CHR ''_'' key) 1 \<noteq> Some ''live'' \<and> IMPORT_TO_DEV = ''false''
             then Inl (ConfigurationError development_instance_message)
             else Inr \<lparr>SECRET_KEY = key, DELAY = DELAY, RETRY_DELAY = RETRY_DELAY,
                       IMPORT_TO_DEV = IMPORT_TO_DEV, OFFSET = OFFSET\<rparr>)"

section \<open>Shared effects\<close>

definition appendLog :: "log_entry \<Rightarrow> state \<Rightarrow> state" where
  "appendLog payload s = emit (AppendLog payload) s"

text \<open>\<^verbatim>\<open>cooldown\<close> and \<^verbatim>\<open>rateLimitCooldown\<close> set a timer and wait for it.
  The event carries the argument handed to \<^verbatim>\<open>setTimeout\<close>; the wait lasts
  \<open>timer_duration\<close> of it.\<close>

definition cooldown :: "config \<Rightarrow> state \<Rightarrow> state" where
  "cooldown cfg s = emit (Cooldown (DELAY cfg)) s"

definition rateLimitCooldown :: "config \<Rightarrow> state \<Rightarrow> state" where
  "rateLimitCooldown cfg s = emit (RateLimitCooldown (RETRY_DELAY cfg)) s"


section \<open>Validation\<close>

text \<open>
  The schema checks of the validation library. A value that is not an object
  fails with one issue, on the value itself (its path is empty). The fields of
  an object are checked one by one; the outer \<open>None\<close> is an issue on that
  field. An optional field accepts a missing key or a value of its type (not
  \<^verbatim>\<open>null\<close>); \<^verbatim>\<open>_id\<close> is an object whose \<^verbatim>\<open>$oid\<close> is a string. Keys the
  schema does not name are dropped.
\<close>

definition required_string :: "properties \<Rightarrow> string \<Rightarrow> string option" where
  "required_string obj key = (case map_of obj key of Some (JStr v) \<Rightarrow> Some v | _ \<Rightarrow> None)"

definition optional_string :: "properties \<Rightarrow> string \<Rightarrow> string option option" where
  "optional_string obj key =
     (case map_of obj key of None \<Rightarrow> Some None | Some (JStr v) \<Rightarrow> Some (Some v) | _ \<Rightarrow> None)"

definition optional_boolean :: "properties \<Rightarrow> string \<Rightarrow> bool option option" where
  "optional_boolean obj key =
     (case map_of obj key of None \<Rightarrow> Some None | Some (JBool v) \<Rightarrow> Some (Some v) | _ \<Rightarrow> None)"

definition oid_object :: "properties \<Rightarrow> string option" where
  "oid_object obj =
     (case map_of obj ''_id'' of Some (JObj props) \<Rightarrow> required_string props ''$oid'' | _ \<Rightarrow> None)"

definition email_string :: "world \<Rightarrow> properties \<Rightarrow> string option" where
  "email_string w obj =
     (case required_string obj ''email'' of
        Some v \<Rightarrow> if is_email w v then Some v else None
      | None \<Rightarrow> None)"

definition issue :: "string \<Rightarrow> 'a option \<Rightarrow> string list" where
  "issue key r = (case r of None \<Rightarrow> [key] | Some v \<Rightarrow> [])"

definition userSchema_issues :: "world \<Rightarrow> properties \<Rightarrow> string list" where
  "userSchema_issues w obj =
     issue ''_id'' (oid_object obj) @
     issue ''email'' (email_string w obj) @
     issue ''first_name'' (optional_string obj ''first_name'') @
     issue ''last_name'' (optional_string obj ''last_name'') @
     issue ''phone'' (optional_string obj ''phone'') @
     issue ''password'' (optional_string obj ''password'') @
     issue ''organization_id'' (optional_string obj ''organization_id'') @
     issue ''locale'' (optional_string obj ''locale'') @
     issue ''mobile_organization_id'' (optional_string obj ''mobile_organization_id'') @
     issue ''role_id'' (optional_string obj ''role_id'') @
     issue ''super_admin'' (optional_boolean obj ''super_admin'')"

definition userSchema_object :: "world \<Rightarrow> properties \<Rightarrow> error + user" where
  "userSchema_object w obj =
     (if userSchema_issues w obj \<noteq> [] then Inl (ZodError (userSchema_issues w obj))
      else Inr \<lparr>oid = the (oid_object obj),
                email = the (email_string w obj),
                first_name = the (optional_string obj ''first_name''),
                last_name = the (optional_string obj ''last_name''),
                phone = the (optional_string obj ''phone''),
                password = the (optional_string obj ''password''),
                organization_id = the (optional_string obj ''organization_id''),
                user_locale = the (optional_string obj ''locale''),
                mobile_organization_id = the (optional_string obj ''mobile_organization_id''),
                role_id = the (optional_string obj ''role_id''),
                super_admin = the (optional_boolean obj ''super_admin'')\<rparr>)"

definition userSchema_safeParse :: "world \<Rightarrow> raw_record \<Rightarrow> error + user" where
  "userSchema_safeParse w v =
     (case v of JObj obj \<Rightarrow> userSchema_object w obj | _ \<Rightarrow> Inl (ZodError [[]]))"

definition organizationSchema_issues :: "properties \<Rightarrow> string list" where
  "organizationSchema_issues obj =
     issue ''_id'' (oid_object obj) @
     issue ''organization_name'' (required_string obj ''organization_name'') @
     issue ''email'' (required_string obj ''email'')"

definition organizationSchema_object :: "properties \<Rightarrow> error + organization" where
  "organizationSchema_object obj =
     (if organizationSchema_issues obj \<noteq> [] then Inl (ZodError (organizationSchema_issues obj))
      else Inr \<lparr>org_oid = the (oid_object obj),
                organization_name = the (required_string obj ''organization_name''),
                org_email = the (required_string obj ''email'')\<rparr>)"

definition organizationSchema_safeParse :: "raw_record \<Rightarrow> error + organization" where
  "organizationSchema_safeParse v =
     (case v of JObj obj \<Rightarrow> organizationSchema_object obj | _ \<Rightarrow> Inl (ZodError [[]]))"

text \<open>How a call ends that does not run forever: it returns, or it throws
  an error nothing catches, which ends the process. The state is the one
  reached.\<close>

datatype result = Completed state | Aborted fatal state

section \<open>The user entry point (\<^verbatim>\<open>src/index.ts\<close>)\<close>

text \<open>The argument object \<^verbatim>\<open>createUser\<close> builds (lines 54-90).\<close>

definition createUser_params :: "user \<Rightarrow> user_params" where
  "createUser_params userData =
     (let externalId = oid userData;
          privateMetaData = \<lparr>mongoId = oid userData,
                             organizationId = organization_id userData,
                             mobileOrganizationId = mobile_organization_id userData\<rparr>;
          publicMetadata = \<lparr>roleId = (case role_id userData of None \<Rightarrow> ''5be5659706b068f4f1f2dd53'' | Some r \<Rightarrow> r),
                            locale_param = (case user_locale userData of None \<Rightarrow> ''sv'' | Some l \<Rightarrow> l),
                            superAdmin = (case super_admin userData of None \<Rightarrow> False | Some b \<Rightarrow> b)\<rparr>
      in if (case password userData of
               None \<Rightarrow> False
             | Some p \<Rightarrow> p \<noteq> [] \<and> length p \<ge> 8 \<and> take 3 p = ''123'')
         then \<lparr>externalId = externalId, emailAddress = [email userData],
                firstName = first_name userData, lastName = last_name userData,
                privateMetadata = privateMetaData, publicMetadata = publicMetadata,
                password_param = password userData, skipPasswordRequirement = None\<rparr>
         else \<lparr>externalId = externalId, emailAddress = [email userData],
                firstName = first_name userData, lastName = last_name userData,
                privateMetadata = privateMetaData, publicMetadata = publicMetadata,
                password_param = None, skipPasswordRequirement = Some True\<rparr>)"

text \<open>The remote call: the request is recorded, the clock advances, the
  world answers.\<close>

definition createUser :: "world \<Rightarrow> user \<Rightarrow> state \<Rightarrow> (error + unit) \<times> state" where
  "createUser w userData s =
     (let params = createUser_params userData
      in (users_createUser w (clock s) params,
          s\<lparr>clock := clock s + 1, trace := trace s @ [CreateUser params]\<rparr>))"


text \<open>The spinner's text while a rate limit is waited out.\<close>

definition rate_limit_text :: "string \<Rightarrow> config \<Rightarrow> string" where
  "rate_limit_text txt cfg =
     txt @ '' - rate limit reached, waiting for '' @ show_int (RETRY_DELAY cfg) @ '' ms''"

text \<open>
  \<^verbatim>\<open>processUserToClerk\<close> (lines 104-131). The \<^verbatim>\<open>try\<close> block is the
  attempt; the \<^verbatim>\<open>catch\<close> block inspects the error's status and, to log,
  reads the \<^verbatim>\<open>_id\<close> of the raw record, which throws when the record is
  \<^verbatim>\<open>null\<close>: nothing catches that error. On 429 the function calls itself,
  with no bound on the number of calls: the result is \<open>None\<close> when it never
  returns.
\<close>

partial_function (option) processUserToClerk ::
  "config \<Rightarrow> world \<Rightarrow> raw_record \<Rightarrow> state \<Rightarrow> result option" where
  "processUserToClerk cfg w userData s =
     (let txt = spinner_text s;
          attempt = (case userSchema_safeParse w userData of
                       Inl err \<Rightarrow> (Inl err, s)
                     | Inr parsedUserData \<Rightarrow> createUser w parsedUserData s)
      in case attempt of
           (Inr u, s1) \<Rightarrow> Some (Completed (s1\<lparr>migrated := migrated s1 + 1\<rparr>))
         | (Inl err, s1) \<Rightarrow>
             if status err = Some 422
             then (case read_property userData ''_id'' of
                     Inl thrown \<Rightarrow> Some (Aborted thrown s1)
                   | Inr recordId \<Rightarrow>
                       Some (Completed
                         ((appendLog \<lparr>id_key = ''userId'', record_id = recordId,
                                      details = err\<rparr> s1)
                          \<lparr>alreadyExists := alreadyExists s1 + 1\<rparr>)))
             else if status err = Some 429
             then processUserToClerk cfg w userData
                    ((rateLimitCooldown cfg (s1\<lparr>spinner_text := rate_limit_text txt cfg\<rparr>))
                     \<lparr>spinner_text := txt\<rparr>)
             else (case read_property userData ''_id'' of
                     Inl thrown \<Rightarrow> Some (Aborted thrown s1)
                   | Inr recordId \<Rightarrow>
                       Some (Completed
                         (appendLog \<lparr>id_key = ''userId'', record_id = recordId,
                                     details = err\<rparr> s1))))"

text \<open>The two texts the loop gives the spinner.\<close>

definition cooldown_text :: "nat \<Rightarrow> nat \<Rightarrow> string" where
  "cooldown_text i len = ''Migrating user '' @ show_nat i @ ''/'' @ show_nat len @ '', cooldown''"

definition migrating_text :: "nat \<Rightarrow> nat \<Rightarrow> string" where
  "migrating_text i len = ''Migrating user '' @ show_nat i @ ''/'' @ show_nat len"

text \<open>The \<^verbatim>\<open>for\<close> loop of \<^verbatim>\<open>main\<close> (lines 159-165): \<open>len\<close> is
  \<^verbatim>\<open>offsetUsers.length\<close>, \<open>i\<close> the loop's counter.\<close>

fun migrate_users ::
  "config \<Rightarrow> world \<Rightarrow> nat \<Rightarrow> nat \<Rightarrow> raw_record list \<Rightarrow> state \<Rightarrow> result option" where
  "migrate_users cfg w len i [] s = Some (Completed s)"
| "migrate_users cfg w len i (userData # rest) s =
     (let s1 = s\<lparr>spinner_text := cooldown_text i len\<rparr>;
          s2 = cooldown cfg s1;
          s3 = s2\<lparr>spinner_text := migrating_text (i + 1) len\<rparr>
      in case processUserToClerk cfg w userData s3 of
           None \<Rightarrow> None
         | Some (Aborted thrown s4) \<Rightarrow> Some (Aborted thrown s4)
         | Some (Completed s4) \<Rightarrow> migrate_users cfg w len (i + 1) rest s4)"

text \<open>\<^verbatim>\<open>main\<close> (lines 141-169). The spinner is started with a text; its
  \<^verbatim>\<open>succeed\<close> prints a last line on the error stream and leaves the
  \<^verbatim>\<open>text\<close> property as it is. An error thrown in the loop ends
  \<^verbatim>\<open>main\<close> with it.\<close>

definition main :: "config \<Rightarrow> world \<Rightarrow> string option \<Rightarrow> state \<Rightarrow> result option" where
  "main cfg w arg s =
     (let s1 = emit (ConsoleLog ''Clerk User Migration Utility'') s;
          inputFileName = (case arg of None \<Rightarrow> ''users.json'' | Some f \<Rightarrow> f);
          s2 = emit (ConsoleLog (''Fetching users from '' @ inputFileName)) s1;
          s3 = emit (ReadFile inputFileName) s2
      in case readFile w inputFileName of
           Inl failure \<Rightarrow> Some (Aborted failure s3)
         | Inr parsedUserData \<Rightarrow>
             (let offsetUsers = slice (OFFSET cfg) parsedUserData;
                  s4 = emit (ConsoleLog
                         (''users.json found and parsed, attempting migration with an offset of '' @
                          show_int (OFFSET cfg))) s3;
                  s5 = s4\<lparr>spinner_text := ''Migrating users''\<rparr>
              in migrate_users cfg w (length offsetUsers) 0 offsetUsers s5))"

text \<open>
  The whole script: the startup checks throw before \<^verbatim>\<open>main\<close> is called; the
  two summary lines are printed by the continuation of \<^verbatim>\<open>main()\<close>
  (lines 171-174), which runs only when \<^verbatim>\<open>main\<close> returns.
\<close>

definition run_users :: "env \<Rightarrow> world \<Rightarrow> result option" where
  "run_users e w =
     (case startup e of
        Inl failure \<Rightarrow> Some (Aborted failure init)
      | Inr cfg \<Rightarrow>
          (case main cfg w (argv2 e) init of
             None \<Rightarrow> None
           | Some (Aborted failure s) \<Rightarrow> Some (Aborted failure s)
           | Some (Completed s) \<Rightarrow>
               Some (Completed
                 (emit (ConsoleLog (show_nat (alreadyExists s) @ '' users failed to upload''))
                   (emit (ConsoleLog (show_nat (migrated s) @ '' users migrated'')) s)))))"


section \<open>The organization entry point (\<^verbatim>\<open>src/index-org.ts\<close>)\<close>

text \<open>\<^verbatim>\<open>getUserByEmail\<close> (lines 55-70): the \<^verbatim>\<open>catch\<close> prints and returns
  the empty string.\<close>

definition getUserByEmail :: "world \<Rightarrow> string \<Rightarrow> state \<Rightarrow> string \<times> state" where
  "getUserByEmail w addr s =
     (let s1 = s\<lparr>clock := clock s + 1, trace := trace s @ [GetUserList [addr]]\<rparr>
      in case users_getUserList w (clock s) [addr] of
           Inr users \<Rightarrow>
             (let user = (if length users > 0 then index users 0 else None);
                  userId = (case user of None \<Rightarrow> [] | Some u \<Rightarrow> user_id u)
              in (userId, s1))
         | Inl err \<Rightarrow> ([], emit (ConsoleError ''Error fetching user:'') s1))"

text \<open>\<^verbatim>\<open>createOrganization\<close> (lines 37-53).\<close>

definition createOrganization ::
  "world \<Rightarrow> organization \<Rightarrow> state \<Rightarrow> (error + unit) \<times> state" where
  "createOrganization w organizationData s =
     (let externalId = org_oid organizationData;
          privateMetaData = \<lparr>org_mongoId = org_oid organizationData, external_id = externalId\<rparr>;
          (createdBy, s1) = getUserByEmail w (org_email organizationData) s;
          params = \<lparr>name = organization_name organizationData, createdBy = createdBy,
                    org_privateMetadata = privateMetaData\<rparr>
      in (organizations_createOrganization w (clock s1) params,
          s1\<lparr>clock := clock s1 + 1, trace := trace s1 @ [CreateOrganization params]\<rparr>))"

text \<open>
  \<^verbatim>\<open>processOrganizationToClerk\<close> (lines 83-114). The \<^verbatim>\<open>try\<close> block is the
  attempt; the \<^verbatim>\<open>catch\<close> block inspects the error's status and, to log,
  reads the \<^verbatim>\<open>_id\<close> of the raw record, which throws when the record is
  \<^verbatim>\<open>null\<close>: nothing catches that error. On 429 the function calls itself,
  with no bound on the number of calls: the result is \<open>None\<close> when it never
  returns.
\<close>

partial_function (option) processOrganizationToClerk ::
  "config \<Rightarrow> world \<Rightarrow> raw_record \<Rightarrow> state \<Rightarrow> result option" where
  "processOrganizationToClerk cfg w organizationData s =
     (let txt = spinner_text s;
          attempt = (case organizationSchema_safeParse organizationData of
                       Inl err \<Rightarrow> (Inl err, s)
                     | Inr parsedOrganizationData \<Rightarrow> createOrganization w parsedOrganizationData s)
      in case attempt of
           (Inr u, s1) \<Rightarrow> Some (Completed (s1\<lparr>migrated := migrated s1 + 1\<rparr>))
         | (Inl err, s1) \<Rightarrow>
             if status err = Some 422
             then (case read_property organizationData ''_id'' of
                     Inl thrown \<Rightarrow> Some (Aborted thrown s1)
                   | Inr recordId \<Rightarrow>
                       Some (Completed
                         ((appendLog \<lparr>id_key = ''organizationId'', record_id = recordId,
                                      details = err\<rparr> s1)
                          \<lparr>alreadyExists := alreadyExists s1 + 1\<rparr>)))
             else if status err = Some 429
             then processOrganizationToClerk cfg w organizationData
                    ((rateLimitCooldown cfg (s1\<lparr>spinner_text := rate_limit_text txt cfg\<rparr>))
                     \<lparr>spinner_text := txt\<rparr>)
             else (case read_property organizationData ''_id'' of
                     Inl thrown \<Rightarrow> Some (Aborted thrown s1)
                   | Inr recordId \<Rightarrow>
                       Some (Completed
                         (appendLog \<lparr>id_key = ''userId'', record_id = recordId,
                                     details = err\<rparr> s1))))"

text \<open>The \<^verbatim>\<open>for\<close> loop of \<^verbatim>\<open>main\<close> (lines 142-148).\<close>

fun migrate_organizations ::
  "config \<Rightarrow> world \<Rightarrow> nat \<Rightarrow> nat \<Rightarrow> raw_record list \<Rightarrow> state \<Rightarrow> result option" where
  "migrate_organizations cfg w len i [] s = Some (Completed s)"
| "migrate_organizations cfg w len i (organizationData # rest) s =
     (let s1 = s\<lparr>spinner_text := cooldown_text i len\<rparr>;
          s2 = cooldown cfg s1;
          s3 = s2\<lparr>spinner_text := migrating_text (i + 1) len\<rparr>
      in case processOrganizationToClerk cfg w organizationData s3 of
           None \<Rightarrow> None
         | Some (Aborted thrown s4) \<Rightarrow> Some (Aborted thrown s4)
         | Some (Completed s4) \<Rightarrow> migrate_organizations cfg w len (i + 1) rest s4)"

text \<open>\<^verbatim>\<open>main\<close> (lines 124-151).\<close>

definition main_org :: "config \<Rightarrow> world \<Rightarrow> string option \<Rightarrow> state \<Rightarrow> result option" where
  "main_org cfg w arg s =
     (let s1 = emit (ConsoleLog ''Clerk User Migration Utility'') s;
          inputFileName = (case arg of None \<Rightarrow> ''organizations.json'' | Some f \<Rightarrow> f);
          s2 = emit (ConsoleLog (''Fetching organizations from '' @ inputFileName)) s1;
          s3 = emit (ReadFile inputFileName) s2
      in case readFile w inputFileName of
           Inl failure \<Rightarrow> Some (Aborted failure s3)
         | Inr parsedOrganizationData \<Rightarrow>
             (let offsetOrganizations = slice (OFFSET cfg) parsedOrganizationData;
                  s4 = emit (ConsoleLog
                         (''organizations.json found and parsed, attempting migration with an offset of '' @
                          show_int (OFFSET cfg))) s3;
                  s5 = s4\<lparr>spinner_text := ''Migrating users''\<rparr>
              in migrate_organizations cfg w (length offsetOrganizations) 0
                   offsetOrganizations s5))"

text \<open>The whole script, with its summary lines (lines 153-156).\<close>

definition run_organizations :: "env \<Rightarrow> world \<Rightarrow> result option" where
  "run_organizations e w =
     (case startup e of
        Inl failure \<Rightarrow> Some (Aborted failure init)
      | Inr cfg \<Rightarrow>
          (case main_org cfg w (argv2 e) init of
             None \<Rightarrow> None
           | Some (Aborted failure s) \<Rightarrow> Some (Aborted failure s)
           | Some (Completed s) \<Rightarrow>
               Some (Completed
                 (emit (ConsoleLog (show_nat (alreadyExists s) @ '' organizations failed to upload''))
                   (emit (ConsoleLog (show_nat (migrated s) @ '' organizations migrated'')) s)))))"

section \<open>Observations on a trace\<close>

text \<open>The entries appended to the log file, the requests sent to the user
  creation call, and the durations of the inter-record waits, in order.\<close>

fun logged :: "event list \<Rightarrow> log_entry list" where
  "logged [] = []"
| "logged (AppendLog p # es) = p # logged es"
| "logged (e # es) = logged es"

fun user_calls :: "event list \<Rightarrow> user_params list" where
  "user_calls [] = []"
| "user_calls (CreateUser p # es) = p # user_calls es"
| "user_calls (e # es) = user_calls es"

fun throttles :: "event list \<Rightarrow> int list" where
  "throttles [] = []"
| "throttles (Cooldown d # es) = d # throttles es"
| "throttles (e # es) = throttles es"

fun console :: "event list \<Rightarrow> string list" where
  "console [] = []"
| "console (ConsoleLog l # es) = l # console es"
| "console (e # es) = console es"

text \<open>The time a run spends waiting for its timers, in milliseconds: the
  delays of the timers of its inter-record and rate-limit waits. No less time
  passes between the start and the end of the run.\<close>

fun waited :: "event list \<Rightarrow> int" where
  "waited [] = 0"
| "waited (Cooldown d # es) = timer_duration d + waited es"
| "waited (RateLimitCooldown d # es) = timer_duration d + waited es"
| "waited (e # es) = waited es"

text \<open>A log entry is a conflict entry when its error has status 422, and a
  permanent failure otherwise.\<close>

definition permanent_failures :: "event list \<Rightarrow> log_entry list" where
  "permanent_failures tr = filter (\<lambda>p. status (details p) \<noteq> Some 422) (logged tr)"

definition conflicts :: "event list \<Rightarrow> log_entry list" where
  "conflicts tr = filter (\<lambda>p. status (details p) = Some 422) (logged tr)"


section \<open>Vocabulary of the statements\<close>

text \<open>The state after the creation call for a validated user, and the log
  entry written for a record that is not \<^verbatim>\<open>null\<close>, are not named by the
  source; the statements below name them.\<close>

definition called :: "user \<Rightarrow> state \<Rightarrow> state" where
  "called d s = s\<lparr>clock := clock s + 1, trace := trace s @ [CreateUser (createUser_params d)]\<rparr>"

definition user_entry :: "raw_record \<Rightarrow> error \<Rightarrow> log_entry" where
  "user_entry u e = \<lparr>id_key = ''userId'', record_id = get_prop u ''_id'', details = e\<rparr>"

text \<open>A credential looks like a production credential when its second
  \<open>_\<close>-separated part is \<open>live\<close>.\<close>

definition looks_live :: "string \<Rightarrow> bool" where
  "looks_live key = (index (split_on CHR ''_'' key) 1 = Some ''live'')"

text \<open>The startup checks refuse an environment whose credential is absent
  (not set, or set to the empty string), or whose credential does not look
  like a production one while the import-to-dev flag is not set or is
  \<open>false\<close>.\<close>

definition refused :: "env \<Rightarrow> bool" where
  "refused e =
     (case CLERK_SECRET_KEY e of
        None \<Rightarrow> True
      | Some key \<Rightarrow> key = [] \<or>
          (\<not> looks_live key \<and>
           (IMPORT_TO_DEV_INSTANCE e = None \<or> IMPORT_TO_DEV_INSTANCE e = Some ''false'')))"

definition state_of :: "result \<Rightarrow> state" where
  "state_of r = (case r of Completed s \<Rightarrow> s | Aborted f s \<Rightarrow> s)"

text \<open>What the processing of one record does to the state: it extends the
  trace by a segment without inter-record wait and console line, restores
  the spinner text, adds one to exactly one of the migrated counter, the
  already-exists counter and the number of permanent failures logged, and
  logs one conflict entry for each increment of the already-exists counter.\<close>

definition one_record :: "state \<Rightarrow> state \<Rightarrow> event list \<Rightarrow> bool" where
  "one_record s s' seg \<longleftrightarrow>
     trace s' = trace s @ seg \<and> throttles seg = [] \<and> console seg = [] \<and>
     spinner_text s' = spinner_text s \<and>
     migrated s \<le> migrated s' \<and>
     alreadyExists s' = alreadyExists s + length (conflicts seg) \<and>
     migrated s' + alreadyExists s' + length (permanent_failures seg) =
       migrated s + alreadyExists s + 1"

definition org_entry :: "string \<Rightarrow> raw_record \<Rightarrow> error \<Rightarrow> log_entry" where
  "org_entry key u e = \<lparr>id_key = key, record_id = get_prop u ''_id'', details = e\<rparr>"

text \<open>A segment of events is a processing of a record when some returning
  call of the driver on that record adds exactly these events to the trace.\<close>

definition user_segment :: "config \<Rightarrow> world \<Rightarrow> raw_record \<Rightarrow> event list \<Rightarrow> bool" where
  "user_segment cfg w u seg \<longleftrightarrow>
     (\<exists>sa sb. processUserToClerk cfg w u sa = Some (Completed sb) \<and> trace sb = trace sa @ seg)"

definition org_segment :: "config \<Rightarrow> world \<Rightarrow> raw_record \<Rightarrow> event list \<Rightarrow> bool" where
  "org_segment cfg w u seg \<longleftrightarrow>
     (\<exists>sa sb. processOrganizationToClerk cfg w u sa = Some (Completed sb) \<and>
        trace sb = trace sa @ seg)"

text \<open>The trace of a loop over records: each record's segment, preceded by
  the inter-record wait.\<close>

definition throttled :: "config \<Rightarrow> event list list \<Rightarrow> event list" where
  "throttled cfg segs = concat (map (\<lambda>seg. Cooldown (DELAY cfg) # seg) segs)"

text \<open>The input file of a run, the events before the loop, and the two
  summary lines, for each entry point.\<close>

definition users_file :: "env \<Rightarrow> string" where
  "users_file e = (case argv2 e of None \<Rightarrow> ''users.json'' | Some f \<Rightarrow> f)"

definition users_prologue :: "config \<Rightarrow> string \<Rightarrow> event list" where
  "users_prologue cfg fname =
     [ConsoleLog ''Clerk User Migration Utility'',
      ConsoleLog (''Fetching users from '' @ fname),
      ReadFile fname,
      ConsoleLog (''users.json found and parsed, attempting migration with an offset of '' @
                  show_int (OFFSET cfg))]"

definition users_summary :: "state \<Rightarrow> event list" where
  "users_summary s =
     [ConsoleLog (show_nat (migrated s) @ '' users migrated''),
      ConsoleLog (show_nat (alreadyExists s) @ '' users failed to upload'')]"

definition organizations_file :: "env \<Rightarrow> string" where
  "organizations_file e = (case argv2 e of None \<Rightarrow> ''organizations.json'' | Some f \<Rightarrow> f)"

definition organizations_prologue :: "config \<Rightarrow> string \<Rightarrow> event list" where
  "organizations_prologue cfg fname =
     [ConsoleLog ''Clerk User Migration Utility'',
      ConsoleLog (''Fetching organizations from '' @ fname),
      ReadFile fname,
      ConsoleLog (''organizations.json found and parsed, attempting migration with an offset of '' @
                  show_int (OFFSET cfg))]"

definition organizations_summary :: "state \<Rightarrow> event list" where
  "organizations_summary s =
     [ConsoleLog (show_nat (migrated s) @ '' organizations migrated''),
      ConsoleLog (show_nat (alreadyExists s) @ '' organizations failed to upload'')]"

text \<open>The state in which the loop hands record number \<open>i\<close> to the driver:
  the spinner announces the wait, the wait is made, the spinner announces the
  record.\<close>

definition before_record :: "config \<Rightarrow> nat \<Rightarrow> nat \<Rightarrow> state \<Rightarrow> state" where
  "before_record cfg len i s =
     (cooldown cfg (s\<lparr>spinner_text := cooldown_text i len\<rparr>))
       \<lparr>spinner_text := migrating_text (i + 1) len\<rparr>"

text \<open>The creator the lookup made at clock tick \<open>t\<close> yields, and the request
  \<open>createOrganization\<close> then sends.\<close>

definition creator_at :: "world \<Rightarrow> string \<Rightarrow> nat \<Rightarrow> string" where
  "creator_at w addr t =
     (case users_getUserList w t [addr] of Inr (u # us) \<Rightarrow> user_id u | _ \<Rightarrow> [])"

definition org_request :: "world \<Rightarrow> organization \<Rightarrow> nat \<Rightarrow> org_params" where
  "org_request w d t =
     \<lparr>name = organization_name d, createdBy = creator_at w (org_email d) t,
      org_privateMetadata = \<lparr>org_mongoId = org_oid d, external_id = org_oid d\<rparr>\<rparr>"

text \<open>The requests sent to the organization creation call, and the durations
  of the rate-limit waits.\<close>

fun org_calls :: "event list \<Rightarrow> org_params list" where
  "org_calls [] = []"
| "org_calls (CreateOrganization p # es) = p # org_calls es"
| "org_calls (e # es) = org_calls es"

fun rate_limit_waits :: "event list \<Rightarrow> int list" where
  "rate_limit_waits [] = []"
| "rate_limit_waits (RateLimitCooldown d # es) = d # rate_limit_waits es"
| "rate_limit_waits (e # es) = rate_limit_waits es"

text \<open>The events of one attempt to create an organization that starts at
  clock tick \<open>t\<close>: the lookup, its error message when it fails, and the
  creation request.\<close>

definition lookup_events :: "world \<Rightarrow> string \<Rightarrow> nat \<Rightarrow> event list" where
  "lookup_events w addr t =
     GetUserList [addr] #
     (case users_getUserList w t [addr] of
        Inl err \<Rightarrow> [ConsoleError ''Error fetching user:'']
      | Inr users \<Rightarrow> [])"

definition org_attempt :: "world \<Rightarrow> organization \<Rightarrow> nat \<Rightarrow> event list" where
  "org_attempt w d t = lookup_events w (org_email d) t @ [CreateOrganization (org_request w d t)]"

section \<open>Examples\<close>

definition user_with_password :: "string option \<Rightarrow> user" where
  "user_with_password p =
     \<lparr>oid = ''64a1'', email = ''a@b.se'', first_name = None, last_name = None, phone = None,
      password = p, organization_id = None, user_locale = None,
      mobile_organization_id = None, role_id = None, super_admin = None\<rparr>"

text \<open>
  A run of each entry point. Users: the first record is created, the second
  fails validation, the third is rate limited once and then created.
  Organizations: the first record is rate limited once and then created, the
  second, whose creator lookup fails, is answered with a conflict.
\<close>

definition good_record :: "string \<Rightarrow> raw_record" where
  "good_record i = JObj [(''_id'', JObj [(''$oid'', JStr i)]), (''email'', JStr ''a@b.se'')]"

definition bad_record :: raw_record where
  "bad_record = JObj [(''_id'', JObj [(''$oid'', JStr ''2'')]), (''email'', JNum 7)]"

definition good_org :: "string \<Rightarrow> raw_record" where
  "good_org i = JObj [(''_id'', JObj [(''$oid'', JStr i)]), (''organization_name'', JStr ''Acme''),
                      (''email'', JStr ''a@b.se'')]"

definition example_world :: world where
  "example_world =
     \<lparr>is_email = (\<lambda>a. CHR ''@'' \<in> set a),
      users_createUser = (\<lambda>t p. if t = 1 then Inl (GatewayError (Some 429) ''rate'') else Inr ()),
      users_getUserList = (\<lambda>t a. if t = 4 then Inl (GatewayError None ''network'')
                                  else Inr [\<lparr>user_id = ''user_1''\<rparr>]),
      organizations_createOrganization =
        (\<lambda>t p. if t = 1 then Inl (GatewayError (Some 429) ''rate'')
               else if t = 5 then Inl (GatewayError (Some 422) ''taken'') else Inr ()),
      readFile = (\<lambda>f. if f = ''users.json''
                        then Inr [good_record ''1'', bad_record, good_record ''3'']
                        else if f = ''organizations.json'' then Inr [good_org ''A'', good_org ''B'']
                        else Inl IOFailure)\<rparr>"

definition example_env :: env where
  "example_env = \<lparr>CLERK_SECRET_KEY = Some ''sk_live_x'', DELAY_MS = None, RETRY_DELAY_MS = None,
      IMPORT_TO_DEV_INSTANCE = None, OFFSET_var = None, argv2 = None\<rparr>"

definition example_config :: config where
  "example_config = \<lparr>SECRET_KEY = ''sk_live_x'', DELAY = 1000, RETRY_DELAY = 10000,
                       IMPORT_TO_DEV = ''false'', OFFSET = 0\<rparr>"

definition example_user :: "string \<Rightarrow> user" where
  "example_user i = (user_with_password None)\<lparr>oid := i\<rparr>"

definition example_org :: "string \<Rightarrow> organization" where
  "example_org i = \<lparr>org_oid = i, organization_name = ''Acme'', org_email = ''a@b.se''\<rparr>"

definition example_org_params :: "string \<Rightarrow> string \<Rightarrow> org_params" where
  "example_org_params i creator =
     \<lparr>name = ''Acme'', createdBy = creator,
      org_privateMetadata = \<lparr>org_mongoId = i, external_id = i\<rparr>\<rparr>"

text \<open>A world that answers every user creation with a conflict.\<close>

definition conflict_world :: world where
  "conflict_world =
     example_world\<lparr>users_createUser := (\<lambda>t p. Inl (GatewayError (Some 422) ''taken''))\<rparr>"

text \<open>A world whose user lookup always fails and whose organization creation
  always succeeds.\<close>

definition lookup_down_world :: world where
  "lookup_down_world =
     example_world\<lparr>users_getUserList := (\<lambda>t a. Inl (GatewayError None ''network'')),
                   organizations_createOrganization := (\<lambda>t p. Inr ())\<rparr>"

text \<open>A world that answers every creation call with a rate limit.\<close>

definition rate_limited_world :: world where
  "rate_limited_world =
     example_world\<lparr>users_createUser := (\<lambda>t p. Inl (GatewayError (Some 429) ''rate'')),
                   organizations_createOrganization :=
                     (\<lambda>t p. Inl (GatewayError (Some 429) ''rate''))\<rparr>"

text \<open>A run over one good record with a configured delay of \<open>2\<^sup>3\<^sup>1\<close>
  milliseconds, and the state it ends in.\<close>

definition slow_env :: env where
  "slow_env = example_env\<lparr>DELAY_MS := Some 2147483648\<rparr>"

definition slow_config :: config where
  "slow_config = example_config\<lparr>DELAY := 2147483648\<rparr>"

definition single_world :: world where
  "single_world = example_world\<lparr>readFile := (\<lambda>f. Inr [good_record ''1''])\<rparr>"

definition slow_final :: state where
  "slow_final =
     init\<lparr>migrated := 1, spinner_text := migrating_text 1 1, clock := 1,
          trace := users_prologue slow_config ''users.json'' @
                   [Cooldown 2147483648, CreateUser (createUser_params (example_user ''1''))] @
                   [ConsoleLog (show_nat 1 @ '' users migrated''),
                    ConsoleLog (show_nat 0 @ '' users failed to upload'')]\<rparr>"


section \<open>Basic facts\<close>

lemma logged_append: "logged (xs @ ys) = logged xs @ logged ys"
  by (induction xs rule: logged.induct) auto

lemma user_calls_append: "user_calls (xs @ ys) = user_calls xs @ user_calls ys"
  by (induction xs rule: user_calls.induct) auto

lemma throttles_append: "throttles (xs @ ys) = throttles xs @ throttles ys"
  by (induction xs rule: throttles.induct) auto

lemma console_append: "console (xs @ ys) = console xs @ console ys"
  by (induction xs rule: console.induct) auto

lemma permanent_failures_append:
  "permanent_failures (xs @ ys) = permanent_failures xs @ permanent_failures ys"
  by (simp add: permanent_failures_def logged_append)

lemma conflicts_append: "conflicts (xs @ ys) = conflicts xs @ conflicts ys"
  by (simp add: conflicts_def logged_append)

lemma trace_emit: "trace (emit ev s) = trace s @ [ev]"
  by (simp add: emit_def)

lemma starts_with_123: "(take 3 p = ''123'') = (\<exists>rest. p = ''123'' @ rest)"
proof
  assume "take 3 p = ''123''"
  then have "p = ''123'' @ drop 3 p" by (metis append_take_drop_id)
  then show "\<exists>rest. p = ''123'' @ rest" ..
next
  assume "\<exists>rest. p = ''123'' @ rest"
  then show "take 3 p = ''123''" by auto
qed

section \<open>The password rule of user creation\<close>

text \<open>
  Claim C10. For every validated user record, the request recorded by
  \<open>createUser\<close> carries a password if and only if the record has a password
  that starts with \<open>123\<close> and has at least 8 characters; then it is the
  record's password and the skip-password-requirement flag is absent. In every
  other case the request has no password and the flag is set.
\<close>

theorem createUser_password_rule:
  "trace (snd (createUser w d s)) = trace s @ [CreateUser (createUser_params d)] \<and>
   (password_param (createUser_params d) \<noteq> None) =
     (\<exists>rest. password d = Some (''123'' @ rest) \<and> 8 \<le> length (''123'' @ rest)) \<and>
   (if password_param (createUser_params d) \<noteq> None
    then password_param (createUser_params d) = password d \<and>
         skipPasswordRequirement (createUser_params d) = None
    else skipPasswordRequirement (createUser_params d) = Some True)"
  by (cases "password d")
     (auto simp: createUser_def createUser_params_def Let_def starts_with_123)

theorem createUser_password_rule_witness:
  "password_param (createUser_params (user_with_password (Some ''12345678''))) = Some ''12345678'' \<and>
   skipPasswordRequirement (createUser_params (user_with_password (Some ''12345678''))) = None \<and>
   password_param (createUser_params (user_with_password (Some ''s3cret-pass''))) = None \<and>
   skipPasswordRequirement (createUser_params (user_with_password (Some ''s3cret-pass''))) = Some True"
proof -
  have kept: "password_param (createUser_params (user_with_password (Some ''12345678''))) \<noteq> None"
    using createUser_password_rule [of w "user_with_password (Some ''12345678'')" s]
    by (simp add: user_with_password_def)
  have dropped: "password_param (createUser_params (user_with_password (Some ''s3cret-pass''))) = None"
    using createUser_password_rule [of w "user_with_password (Some ''s3cret-pass'')" s]
    by (simp add: user_with_password_def)
  show ?thesis
    using kept dropped
      createUser_password_rule [of w "user_with_password (Some ''12345678'')" s]
      createUser_password_rule [of w "user_with_password (Some ''s3cret-pass'')" s]
    by (simp add: user_with_password_def)
qed

section \<open>Reasoning about the retrying drivers\<close>

text \<open>A validation error has no status, and a record that passes validation
  is not \<^verbatim>\<open>null\<close>. The two rules that follow are the induction principles
  of the drivers for calls that return, one case per way through the
  \<^verbatim>\<open>try\<close> and \<^verbatim>\<open>catch\<close> blocks.\<close>

lemma userSchema_error_status: "userSchema_safeParse w u = Inl e \<Longrightarrow> status e = None"
  by (auto simp: userSchema_safeParse_def userSchema_object_def split: if_splits json.splits)

lemma userSchema_valid_not_null: "userSchema_safeParse w u = Inr d \<Longrightarrow> u \<noteq> JNull"
  by (auto simp: userSchema_safeParse_def)

lemma process_user_induct [consumes 1, case_names invalid created conflict retry failed]:
  assumes run: "processUserToClerk cfg w u s = Some (Completed s')"
    and invalid: "\<And>s e. userSchema_safeParse w u = Inl e \<Longrightarrow> u \<noteq> JNull \<Longrightarrow>
           P s (appendLog (user_entry u e) s)"
    and created: "\<And>s d x. userSchema_safeParse w u = Inr d \<Longrightarrow>
           users_createUser w (clock s) (createUser_params d) = Inr x \<Longrightarrow>
           P s ((called d s)\<lparr>migrated := migrated s + 1\<rparr>)"
    and conflict: "\<And>s d e. userSchema_safeParse w u = Inr d \<Longrightarrow>
           users_createUser w (clock s) (createUser_params d) = Inl e \<Longrightarrow> status e = Some 422 \<Longrightarrow>
           P s ((appendLog (user_entry u e) (called d s))\<lparr>alreadyExists := alreadyExists s + 1\<rparr>)"
    and retry: "\<And>s d e s'. userSchema_safeParse w u = Inr d \<Longrightarrow>
           users_createUser w (clock s) (createUser_params d) = Inl e \<Longrightarrow> status e = Some 429 \<Longrightarrow>
           P (rateLimitCooldown cfg (called d s)) s' \<Longrightarrow> P s s'"
    and failed: "\<And>s d e. userSchema_safeParse w u = Inr d \<Longrightarrow>
           users_createUser w (clock s) (createUser_params d) = Inl e \<Longrightarrow>
           status e \<noteq> Some 422 \<Longrightarrow> status e \<noteq> Some 429 \<Longrightarrow>
           P s (appendLog (user_entry u e) (called d s))"
  shows "P s s'"
proof -
  have "cfg' = cfg \<longrightarrow> w' = w \<longrightarrow> u' = u \<longrightarrow> (\<forall>s'. r = Completed s' \<longrightarrow> P s s')"
    if "processUserToClerk cfg' w' u' s = Some r" for cfg' w' u' s r
    using that
  proof (induction cfg' w' u' s r rule: processUserToClerk.raw_induct[rotated 1, consumes 1])
    case (1 f cfg' w' u' s r)
    note ih = 1(1) and body0 = 1(2)
    show ?case
    proof (intro impI allI)
      fix s'
      assume eq: "cfg' = cfg" "w' = w" "u' = u" and r: "r = Completed s'"
      note body = body0[unfolded r]
      show "P s s'"
      proof (cases "userSchema_safeParse w u")
        case (Inl e)
        with body userSchema_error_status[OF Inl] eq
        have "u \<noteq> JNull \<and> s' = appendLog (user_entry u e) s"
          by (simp add: Let_def user_entry_def read_property_def split: if_splits)
        with invalid[OF Inl] show ?thesis by simp
      next
        case (Inr d)
        note p = Inr
        note nn = userSchema_valid_not_null[OF p]
        show ?thesis
        proof (cases "users_createUser w (clock s) (createUser_params d)")
          case (Inr x)
          with body eq p have "s' = (called d s)\<lparr>migrated := migrated s + 1\<rparr>"
            by (simp add: Let_def createUser_def called_def)
          with created[OF p Inr] show ?thesis by simp
        next
          case (Inl e)
          consider (c422) "status e = Some 422" | (c429) "status e = Some 429"
            | (other) "status e \<noteq> Some 422" "status e \<noteq> Some 429" by blast
          then show ?thesis
          proof cases
            case c422
            with body eq p Inl nn
            have "s' = (appendLog (user_entry u e) (called d s))\<lparr>alreadyExists := alreadyExists s + 1\<rparr>"
              by (simp add: Let_def createUser_def called_def user_entry_def appendLog_def emit_def
                    read_property_def)
            with conflict[OF p Inl c422] show ?thesis by simp
          next
            case c429
            with body eq p Inl
            have "f cfg w u (rateLimitCooldown cfg (called d s)) = Some (Completed s')"
              by (simp add: Let_def createUser_def called_def rateLimitCooldown_def emit_def)
            from ih[OF this] have "P (rateLimitCooldown cfg (called d s)) s'" by simp
            from retry[OF p Inl c429 this] show ?thesis .
          next
            case other
            with body eq p Inl nn
            have "s' = appendLog (user_entry u e) (called d s)"
              by (simp add: Let_def createUser_def called_def user_entry_def read_property_def)
            with failed[OF p Inl other] show ?thesis by simp
          qed
        qed
      qed
    qed
  qed
  from this[OF run] show ?thesis by simp
qed

lemma organizationSchema_error_status: "organizationSchema_safeParse u = Inl e \<Longrightarrow> status e = None"
  by (auto simp: organizationSchema_safeParse_def organizationSchema_object_def split: if_splits json.splits)

lemma organizationSchema_valid_not_null: "organizationSchema_safeParse u = Inr d \<Longrightarrow> u \<noteq> JNull"
  by (auto simp: organizationSchema_safeParse_def)

lemma process_org_induct [consumes 1, case_names invalid created conflict retry failed]:
  assumes run: "processOrganizationToClerk cfg w u s = Some (Completed s')"
    and invalid: "\<And>s e. organizationSchema_safeParse u = Inl e \<Longrightarrow> u \<noteq> JNull \<Longrightarrow>
           P s (appendLog (org_entry ''userId'' u e) s)"
    and created: "\<And>s d x s1. organizationSchema_safeParse u = Inr d \<Longrightarrow>
           createOrganization w d s = (Inr x, s1) \<Longrightarrow>
           P s (s1\<lparr>migrated := migrated s1 + 1\<rparr>)"
    and conflict: "\<And>s d e s1. organizationSchema_safeParse u = Inr d \<Longrightarrow>
           createOrganization w d s = (Inl e, s1) \<Longrightarrow> status e = Some 422 \<Longrightarrow>
           P s ((appendLog (org_entry ''organizationId'' u e) s1)\<lparr>alreadyExists := alreadyExists s1 + 1\<rparr>)"
    and retry: "\<And>s d e s1 s'. organizationSchema_safeParse u = Inr d \<Longrightarrow>
           createOrganization w d s = (Inl e, s1) \<Longrightarrow> status e = Some 429 \<Longrightarrow>
           P ((rateLimitCooldown cfg (s1\<lparr>spinner_text := rate_limit_text (spinner_text s) cfg\<rparr>))
                \<lparr>spinner_text := spinner_text s\<rparr>) s' \<Longrightarrow> P s s'"
    and failed: "\<And>s d e s1. organizationSchema_safeParse u = Inr d \<Longrightarrow>
           createOrganization w d s = (Inl e, s1) \<Longrightarrow>
           status e \<noteq> Some 422 \<Longrightarrow> status e \<noteq> Some 429 \<Longrightarrow>
           P s (appendLog (org_entry ''userId'' u e) s1)"
  shows "P s s'"
proof -
  have "cfg' = cfg \<longrightarrow> w' = w \<longrightarrow> u' = u \<longrightarrow> (\<forall>s'. r = Completed s' \<longrightarrow> P s s')"
    if "processOrganizationToClerk cfg' w' u' s = Some r" for cfg' w' u' s r
    using that
  proof (induction cfg' w' u' s r rule: processOrganizationToClerk.raw_induct[rotated 1, consumes 1])
    case (1 f cfg' w' u' s r)
    note ih = 1(1) and body0 = 1(2)
    show ?case
    proof (intro impI allI)
      fix s'
      assume eq: "cfg' = cfg" "w' = w" "u' = u" and r: "r = Completed s'"
      note body = body0[unfolded r]
      show "P s s'"
      proof (cases "organizationSchema_safeParse u")
        case (Inl e)
        with body organizationSchema_error_status[OF Inl] eq
        have "u \<noteq> JNull \<and> s' = appendLog (org_entry ''userId'' u e) s"
          by (simp add: Let_def org_entry_def read_property_def split: if_splits)
        with invalid[OF Inl] show ?thesis by simp
      next
        case (Inr d)
        note p = Inr
        note nn = organizationSchema_valid_not_null[OF p]
        obtain r s1 where att: "createOrganization w d s = (r, s1)"
          by (cases "createOrganization w d s")
        show ?thesis
        proof (cases r)
          case (Inr x)
          with body eq p att have "s' = s1\<lparr>migrated := migrated s1 + 1\<rparr>"
            by (simp add: Let_def)
          with created[OF p att[unfolded Inr]] show ?thesis by simp
        next
          case (Inl e)
          note att' = att[unfolded Inl]
          consider (c422) "status e = Some 422" | (c429) "status e = Some 429"
            | (other) "status e \<noteq> Some 422" "status e \<noteq> Some 429" by blast
          then show ?thesis
          proof cases
            case c422
            with body eq p att' nn
            have "s' = (appendLog (org_entry ''organizationId'' u e) s1)\<lparr>alreadyExists := alreadyExists s1 + 1\<rparr>"
              by (simp add: Let_def org_entry_def read_property_def)
            with conflict[OF p att' c422] show ?thesis by simp
          next
            case c429
            with body eq p att'
            have "f cfg w u ((rateLimitCooldown cfg (s1\<lparr>spinner_text := rate_limit_text (spinner_text s) cfg\<rparr>))
                \<lparr>spinner_text := spinner_text s\<rparr>) = Some (Completed s')"
              by (simp add: Let_def)
            from ih[OF this] have "P ((rateLimitCooldown cfg (s1\<lparr>spinner_text := rate_limit_text (spinner_text s) cfg\<rparr>))
                \<lparr>spinner_text := spinner_text s\<rparr>) s'" by simp
            from retry[OF p att' c429 this] show ?thesis .
          next
            case other
            with body eq p att' nn
            have "s' = appendLog (org_entry ''userId'' u e) s1"
              by (simp add: Let_def org_entry_def read_property_def)
            with failed[OF p att' other] show ?thesis by simp
          qed
        qed
      qed
    qed
  qed
  from this[OF run] show ?thesis by simp
qed

section \<open>The effect of one record\<close>

lemma one_record_retry:
  assumes "one_record s1 s' seg" "trace s1 = trace s @ pre" "throttles pre = []" "console pre = []"
    "logged pre = []" "spinner_text s1 = spinner_text s" "migrated s1 = migrated s"
    "alreadyExists s1 = alreadyExists s"
  shows "one_record s s' (pre @ seg)"
  using assms
  by (simp add: one_record_def throttles_append console_append permanent_failures_append conflicts_append)
     (simp add: permanent_failures_def conflicts_def)

lemma process_user_effect:
  assumes "processUserToClerk cfg w u s = Some (Completed s')"
  shows "\<exists>seg. one_record s s' seg"
  using assms
proof (induction rule: process_user_induct)
  case (invalid s e)
  have "one_record s (appendLog (user_entry u e) s) [AppendLog (user_entry u e)]"
    using userSchema_error_status[OF invalid(1)]
    by (simp add: one_record_def appendLog_def emit_def permanent_failures_def conflicts_def user_entry_def)
  then show ?case ..
next
  case (created s d x)
  have "one_record s ((called d s)\<lparr>migrated := migrated s + 1\<rparr>) [CreateUser (createUser_params d)]"
    by (simp add: one_record_def called_def permanent_failures_def conflicts_def)
  then show ?case ..
next
  case (conflict s d e)
  have "one_record s ((appendLog (user_entry u e) (called d s))\<lparr>alreadyExists := alreadyExists s + 1\<rparr>)
          [CreateUser (createUser_params d), AppendLog (user_entry u e)]"
    using conflict(3)
    by (simp add: one_record_def called_def appendLog_def emit_def permanent_failures_def conflicts_def user_entry_def)
  then show ?case ..
next
  case (retry s d e s')
  then obtain seg where "one_record (rateLimitCooldown cfg (called d s)) s' seg" by blast
  then have "one_record s s' ([CreateUser (createUser_params d), RateLimitCooldown (RETRY_DELAY cfg)] @ seg)"
    by (rule one_record_retry) (simp_all add: rateLimitCooldown_def emit_def called_def)
  then show ?case ..
next
  case (failed s d e)
  have "one_record s (appendLog (user_entry u e) (called d s))
          [CreateUser (createUser_params d), AppendLog (user_entry u e)]"
    using failed(3)
    by (simp add: one_record_def called_def appendLog_def emit_def permanent_failures_def conflicts_def user_entry_def)
  then show ?case ..
qed

lemma createOrganization_state:
  assumes "createOrganization w d s = (r, s1)"
  shows "\<exists>pre. trace s1 = trace s @ pre \<and> throttles pre = [] \<and> console pre = [] \<and>
           logged pre = [] \<and> spinner_text s1 = spinner_text s \<and> migrated s1 = migrated s \<and>
           alreadyExists s1 = alreadyExists s"
  using assms
  by (auto simp: createOrganization_def getUserByEmail_def Let_def emit_def
           split: sum.splits prod.splits)

lemma process_org_effect:
  assumes "processOrganizationToClerk cfg w u s = Some (Completed s')"
  shows "\<exists>seg. one_record s s' seg"
  using assms
proof (induction rule: process_org_induct)
  case (invalid s e)
  have "one_record s (appendLog (org_entry ''userId'' u e) s) [AppendLog (org_entry ''userId'' u e)]"
    using organizationSchema_error_status[OF invalid(1)]
    by (simp add: one_record_def appendLog_def emit_def permanent_failures_def conflicts_def org_entry_def)
  then show ?case ..
next
  case (created s d x s1)
  from createOrganization_state[OF created(2)] obtain pre where
    "trace s1 = trace s @ pre" "throttles pre = []" "console pre = []"
    "logged pre = []" "spinner_text s1 = spinner_text s" "migrated s1 = migrated s"
    "alreadyExists s1 = alreadyExists s" by blast
  then have "one_record s (s1\<lparr>migrated := migrated s1 + 1\<rparr>) pre"
    by (simp add: one_record_def permanent_failures_def conflicts_def)
  then show ?case ..
next
  case (conflict s d e s1)
  from createOrganization_state[OF conflict(2)] obtain pre where
    "trace s1 = trace s @ pre" "throttles pre = []" "console pre = []"
    "logged pre = []" "spinner_text s1 = spinner_text s" "migrated s1 = migrated s"
    "alreadyExists s1 = alreadyExists s" by blast
  then have "one_record s ((appendLog (org_entry ''organizationId'' u e) s1)\<lparr>alreadyExists := alreadyExists s1 + 1\<rparr>)
       (pre @ [AppendLog (org_entry ''organizationId'' u e)])"
    using conflict(3)
    by (simp add: one_record_def permanent_failures_def conflicts_def appendLog_def emit_def
          throttles_append console_append logged_append org_entry_def)
  then show ?case ..
next
  case (retry s d e s1 s')
  from createOrganization_state[OF retry(2)] obtain pre where
    "trace s1 = trace s @ pre" "throttles pre = []" "console pre = []"
    "logged pre = []" "spinner_text s1 = spinner_text s" "migrated s1 = migrated s"
    "alreadyExists s1 = alreadyExists s" by blast
  moreover from retry obtain seg where "one_record ((rateLimitCooldown cfg (s1\<lparr>spinner_text := rate_limit_text (spinner_text s) cfg\<rparr>))
                \<lparr>spinner_text := spinner_text s\<rparr>) s' seg" by blast
  ultimately have "one_record s s' ((pre @ [RateLimitCooldown (RETRY_DELAY cfg)]) @ seg)"
    by - (erule one_record_retry, simp_all add: rateLimitCooldown_def emit_def
          throttles_append console_append logged_append)
  then show ?case ..
next
  case (failed s d e s1)
  from createOrganization_state[OF failed(2)] obtain pre where
    "trace s1 = trace s @ pre" "throttles pre = []" "console pre = []"
    "logged pre = []" "spinner_text s1 = spinner_text s" "migrated s1 = migrated s"
    "alreadyExists s1 = alreadyExists s" by blast
  then have "one_record s (appendLog (org_entry ''userId'' u e) s1)
       (pre @ [AppendLog (org_entry ''userId'' u e)])"
    using failed(3)
    by (simp add: one_record_def permanent_failures_def conflicts_def appendLog_def emit_def
          throttles_append console_append logged_append org_entry_def)
  then show ?case ..
qed

section \<open>The loops\<close>

lemma throttled_Nil: "throttled cfg [] = []"
  by (simp add: throttled_def)

lemma throttled_Cons: "throttled cfg (seg # segs) = Cooldown (DELAY cfg) # seg @ throttled cfg segs"
  by (simp add: throttled_def)

lemma permanent_failures_throttled:
  "permanent_failures (throttled cfg segs) = permanent_failures (concat segs)"
  by (induction segs) (simp_all add: throttled_Nil throttled_Cons permanent_failures_def logged_append)

lemma conflicts_throttled:
  "conflicts (throttled cfg segs) = conflicts (concat segs)"
  by (induction segs) (simp_all add: throttled_Nil throttled_Cons conflicts_def logged_append)

lemma throttles_throttled:
  "list_all (\<lambda>seg. throttles seg = []) segs \<Longrightarrow>
   throttles (throttled cfg segs) = replicate (length segs) (DELAY cfg)"
  by (induction segs) (simp_all add: throttled_Nil throttled_Cons throttles_append)

lemma console_throttled:
  "list_all (\<lambda>seg. console seg = []) segs \<Longrightarrow> console (throttled cfg segs) = []"
  by (induction segs) (simp_all add: throttled_Nil throttled_Cons console_append)

lemma migrate_users_run:
  assumes "migrate_users cfg w len i us s = Some (Completed s')"
  shows "\<exists>segs. list_all2 (user_segment cfg w) us segs \<and>
           list_all (\<lambda>seg. throttles seg = []) segs \<and> list_all (\<lambda>seg. console seg = []) segs \<and>
           trace s' = trace s @ throttled cfg segs \<and>
           migrated s \<le> migrated s' \<and>
           alreadyExists s' = alreadyExists s + length (conflicts (concat segs)) \<and>
           migrated s' + alreadyExists s' + length (permanent_failures (concat segs)) =
             migrated s + alreadyExists s + length us"
  using assms
proof (induction us arbitrary: s i)
  case Nil
  then have "s' = s" by simp
  then show ?case by (simp add: throttled_Nil permanent_failures_def conflicts_def)
next
  case (Cons u us)
  define s3 where "s3 = (cooldown cfg (s\<lparr>spinner_text := cooldown_text i len\<rparr>))
                          \<lparr>spinner_text := migrating_text (i + 1) len\<rparr>"
  from Cons.prems obtain s4 where
    p: "processUserToClerk cfg w u s3 = Some (Completed s4)" and
    rest: "migrate_users cfg w len (i + 1) us s4 = Some (Completed s')"
    by (auto simp: Let_def s3_def split: option.splits result.splits)
  from process_user_effect[OF p] obtain seg where seg: "one_record s3 s4 seg" by blast
  from Cons.IH[OF rest] obtain segs where
    segs: "list_all2 (user_segment cfg w) us segs"
      "list_all (\<lambda>seg. throttles seg = []) segs" "list_all (\<lambda>seg. console seg = []) segs"
      "trace s' = trace s4 @ throttled cfg segs"
      "migrated s4 \<le> migrated s'"
      "alreadyExists s' = alreadyExists s4 + length (conflicts (concat segs))"
      "migrated s' + alreadyExists s' + length (permanent_failures (concat segs)) =
             migrated s4 + alreadyExists s4 + length us"
    by blast
  have s3: "trace s3 = trace s @ [Cooldown (DELAY cfg)]" "migrated s3 = migrated s"
    "alreadyExists s3 = alreadyExists s"
    by (simp_all add: s3_def cooldown_def emit_def)
  have "user_segment cfg w u seg"
    using p seg by (auto simp: user_segment_def one_record_def)
  with seg segs s3 have
    "list_all2 (user_segment cfg w) (u # us) (seg # segs) \<and>
     list_all (\<lambda>seg. throttles seg = []) (seg # segs) \<and>
     list_all (\<lambda>seg. console seg = []) (seg # segs) \<and>
     trace s' = trace s @ throttled cfg (seg # segs) \<and>
     migrated s \<le> migrated s' \<and>
     alreadyExists s' = alreadyExists s + length (conflicts (concat (seg # segs))) \<and>
     migrated s' + alreadyExists s' + length (permanent_failures (concat (seg # segs))) =
       migrated s + alreadyExists s + length (u # us)"
    by (simp add: one_record_def throttled_Cons permanent_failures_append conflicts_append)
  then show ?case by blast
qed

lemma migrate_organizations_run:
  assumes "migrate_organizations cfg w len i us s = Some (Completed s')"
  shows "\<exists>segs. list_all2 (org_segment cfg w) us segs \<and>
           list_all (\<lambda>seg. throttles seg = []) segs \<and> list_all (\<lambda>seg. console seg = []) segs \<and>
           trace s' = trace s @ throttled cfg segs \<and>
           migrated s \<le> migrated s' \<and>
           alreadyExists s' = alreadyExists s + length (conflicts (concat segs)) \<and>
           migrated s' + alreadyExists s' + length (permanent_failures (concat segs)) =
             migrated s + alreadyExists s + length us"
  using assms
proof (induction us arbitrary: s i)
  case Nil
  then have "s' = s" by simp
  then show ?case by (simp add: throttled_Nil permanent_failures_def conflicts_def)
next
  case (Cons u us)
  define s3 where "s3 = (cooldown cfg (s\<lparr>spinner_text := cooldown_text i len\<rparr>))
                          \<lparr>spinner_text := migrating_text (i + 1) len\<rparr>"
  from Cons.prems obtain s4 where
    p: "processOrganizationToClerk cfg w u s3 = Some (Completed s4)" and
    rest: "migrate_organizations cfg w len (i + 1) us s4 = Some (Completed s')"
    by (auto simp: Let_def s3_def split: option.splits result.splits)
  from process_org_effect[OF p] obtain seg where seg: "one_record s3 s4 seg" by blast
  from Cons.IH[OF rest] obtain segs where
    segs: "list_all2 (org_segment cfg w) us segs"
      "list_all (\<lambda>seg. throttles seg = []) segs" "list_all (\<lambda>seg. console seg = []) segs"
      "trace s' = trace s4 @ throttled cfg segs"
      "migrated s4 \<le> migrated s'"
      "alreadyExists s' = alreadyExists s4 + length (conflicts (concat segs))"
      "migrated s' + alreadyExists s' + length (permanent_failures (concat segs)) =
             migrated s4 + alreadyExists s4 + length us"
    by blast
  have s3: "trace s3 = trace s @ [Cooldown (DELAY cfg)]" "migrated s3 = migrated s"
    "alreadyExists s3 = alreadyExists s"
    by (simp_all add: s3_def cooldown_def emit_def)
  have "org_segment cfg w u seg"
    using p seg by (auto simp: org_segment_def one_record_def)
  with seg segs s3 have
    "list_all2 (org_segment cfg w) (u # us) (seg # segs) \<and>
     list_all (\<lambda>seg. throttles seg = []) (seg # segs) \<and>
     list_all (\<lambda>seg. console seg = []) (seg # segs) \<and>
     trace s' = trace s @ throttled cfg (seg # segs) \<and>
     migrated s \<le> migrated s' \<and>
     alreadyExists s' = alreadyExists s + length (conflicts (concat (seg # segs))) \<and>
     migrated s' + alreadyExists s' + length (permanent_failures (concat (seg # segs))) =
       migrated s + alreadyExists s + length (u # us)"
    by (simp add: one_record_def throttled_Cons permanent_failures_append conflicts_append)
  then show ?case by blast
qed

section \<open>Whole runs\<close>

lemma run_users_unfold:
  assumes "startup e = Inr cfg" "readFile w (users_file e) = Inr recs"
  shows "run_users e w =
     (case migrate_users cfg w (length (slice (OFFSET cfg) recs)) 0 (slice (OFFSET cfg) recs)
             (init\<lparr>trace := users_prologue cfg (users_file e), spinner_text := ''Migrating users''\<rparr>) of
        None \<Rightarrow> None
      | Some (Aborted thrown s6) \<Rightarrow> Some (Aborted thrown s6)
      | Some (Completed s6) \<Rightarrow> Some (Completed (s6\<lparr>trace := trace s6 @ users_summary s6\<rparr>)))"
  using assms
  by (simp add: run_users_def main_def Let_def users_file_def users_prologue_def
        users_summary_def emit_def init_def split: option.splits result.splits)

lemma run_users_inputs:
  assumes "run_users e w = Some (Completed s')"
  shows "\<exists>cfg recs. startup e = Inr cfg \<and> readFile w (users_file e) = Inr recs"
  using assms
  by (auto simp: run_users_def main_def Let_def users_file_def
        split: sum.splits option.splits result.splits)

lemma run_users_completed:
  assumes "run_users e w = Some (Completed s')" "startup e = Inr cfg"
    "readFile w (users_file e) = Inr recs"
  shows "\<exists>segs. list_all2 (user_segment cfg w) (slice (OFFSET cfg) recs) segs \<and>
           list_all (\<lambda>seg. throttles seg = []) segs \<and> list_all (\<lambda>seg. console seg = []) segs \<and>
           trace s' = users_prologue cfg (users_file e) @ throttled cfg segs @ users_summary s' \<and>
           alreadyExists s' = length (conflicts (concat segs)) \<and>
           migrated s' + alreadyExists s' + length (permanent_failures (concat segs)) =
             length (slice (OFFSET cfg) recs)"
proof -
  let ?s5 = "init\<lparr>trace := users_prologue cfg (users_file e), spinner_text := ''Migrating users''\<rparr>"
  from assms obtain s6 where
    loop: "migrate_users cfg w (length (slice (OFFSET cfg) recs)) 0 (slice (OFFSET cfg) recs) ?s5 = Some (Completed s6)"
    and s': "s' = s6\<lparr>trace := trace s6 @ users_summary s6\<rparr>"
    by (auto simp: run_users_unfold split: option.splits result.splits)
  from migrate_users_run[OF loop] obtain segs where
    "list_all2 (user_segment cfg w) (slice (OFFSET cfg) recs) segs"
    "list_all (\<lambda>seg. throttles seg = []) segs" "list_all (\<lambda>seg. console seg = []) segs"
    "trace s6 = trace ?s5 @ throttled cfg segs"
    "alreadyExists s6 = alreadyExists ?s5 + length (conflicts (concat segs))"
    "migrated s6 + alreadyExists s6 + length (permanent_failures (concat segs)) =
       migrated ?s5 + alreadyExists ?s5 + length (slice (OFFSET cfg) recs)"
    by blast
  then have "list_all2 (user_segment cfg w) (slice (OFFSET cfg) recs) segs \<and>
           list_all (\<lambda>seg. throttles seg = []) segs \<and> list_all (\<lambda>seg. console seg = []) segs \<and>
           trace s' = users_prologue cfg (users_file e) @ throttled cfg segs @ users_summary s' \<and>
           alreadyExists s' = length (conflicts (concat segs)) \<and>
           migrated s' + alreadyExists s' + length (permanent_failures (concat segs)) =
             length (slice (OFFSET cfg) recs)"
    by (simp add: s' init_def users_summary_def)
  then show ?thesis ..
qed

lemma run_organizations_unfold:
  assumes "startup e = Inr cfg" "readFile w (organizations_file e) = Inr recs"
  shows "run_organizations e w =
     (case migrate_organizations cfg w (length (slice (OFFSET cfg) recs)) 0 (slice (OFFSET cfg) recs)
             (init\<lparr>trace := organizations_prologue cfg (organizations_file e), spinner_text := ''Migrating users''\<rparr>) of
        None \<Rightarrow> None
      | Some (Aborted thrown s6) \<Rightarrow> Some (Aborted thrown s6)
      | Some (Completed s6) \<Rightarrow> Some (Completed (s6\<lparr>trace := trace s6 @ organizations_summary s6\<rparr>)))"
  using assms
  by (simp add: run_organizations_def main_org_def Let_def organizations_file_def organizations_prologue_def
        organizations_summary_def emit_def init_def split: option.splits result.splits)

lemma run_organizations_inputs:
  assumes "run_organizations e w = Some (Completed s')"
  shows "\<exists>cfg recs. startup e = Inr cfg \<and> readFile w (organizations_file e) = Inr recs"
  using assms
  by (auto simp: run_organizations_def main_org_def Let_def organizations_file_def
        split: sum.splits option.splits result.splits)

lemma run_organizations_completed:
  assumes "run_organizations e w = Some (Completed s')" "startup e = Inr cfg"
    "readFile w (organizations_file e) = Inr recs"
  shows "\<exists>segs. list_all2 (org_segment cfg w) (slice (OFFSET cfg) recs) segs \<and>
           list_all (\<lambda>seg. throttles seg = []) segs \<and> list_all (\<lambda>seg. console seg = []) segs \<and>
           trace s' = organizations_prologue cfg (organizations_file e) @ throttled cfg segs @ organizations_summary s' \<and>
           alreadyExists s' = length (conflicts (concat segs)) \<and>
           migrated s' + alreadyExists s' + length (permanent_failures (concat segs)) =
             length (slice (OFFSET cfg) recs)"
proof -
  let ?s5 = "init\<lparr>trace := organizations_prologue cfg (organizations_file e), spinner_text := ''Migrating users''\<rparr>"
  from assms obtain s6 where
    loop: "migrate_organizations cfg w (length (slice (OFFSET cfg) recs)) 0 (slice (OFFSET cfg) recs) ?s5 = Some (Completed s6)"
    and s': "s' = s6\<lparr>trace := trace s6 @ organizations_summary s6\<rparr>"
    by (auto simp: run_organizations_unfold split: option.splits result.splits)
  from migrate_organizations_run[OF loop] obtain segs where
    "list_all2 (org_segment cfg w) (slice (OFFSET cfg) recs) segs"
    "list_all (\<lambda>seg. throttles seg = []) segs" "list_all (\<lambda>seg. console seg = []) segs"
    "trace s6 = trace ?s5 @ throttled cfg segs"
    "alreadyExists s6 = alreadyExists ?s5 + length (conflicts (concat segs))"
    "migrated s6 + alreadyExists s6 + length (permanent_failures (concat segs)) =
       migrated ?s5 + alreadyExists ?s5 + length (slice (OFFSET cfg) recs)"
    by blast
  then have "list_all2 (org_segment cfg w) (slice (OFFSET cfg) recs) segs \<and>
           list_all (\<lambda>seg. throttles seg = []) segs \<and> list_all (\<lambda>seg. console seg = []) segs \<and>
           trace s' = organizations_prologue cfg (organizations_file e) @ throttled cfg segs @ organizations_summary s' \<and>
           alreadyExists s' = length (conflicts (concat segs)) \<and>
           migrated s' + alreadyExists s' + length (permanent_failures (concat segs)) =
             length (slice (OFFSET cfg) recs)"
    by (simp add: s' init_def organizations_summary_def)
  then show ?thesis ..
qed

section \<open>Unfolding the drivers\<close>

lemma process_user_unfold:
  "processUserToClerk cfg w u s =
     (case userSchema_safeParse w u of
        Inl e \<Rightarrow>
          if u = JNull then Some (Aborted TypeError s)
          else Some (Completed (appendLog (user_entry u e) s))
      | Inr d \<Rightarrow>
          (case users_createUser w (clock s) (createUser_params d) of
             Inr x \<Rightarrow> Some (Completed ((called d s)\<lparr>migrated := migrated s + 1\<rparr>))
           | Inl e \<Rightarrow>
               if status e = Some 422
               then Some (Completed ((appendLog (user_entry u e) (called d s))
                          \<lparr>alreadyExists := alreadyExists s + 1\<rparr>))
               else if status e = Some 429
               then processUserToClerk cfg w u (rateLimitCooldown cfg (called d s))
               else Some (Completed (appendLog (user_entry u e) (called d s)))))"
proof (cases "userSchema_safeParse w u")
  case (Inl e)
  with userSchema_error_status[OF Inl] show ?thesis
    by (subst processUserToClerk.simps) (simp add: Let_def user_entry_def read_property_def)
next
  case (Inr d)
  with userSchema_valid_not_null[OF Inr] show ?thesis
    by (subst processUserToClerk.simps)
       (simp add: Let_def createUser_def called_def rateLimitCooldown_def emit_def user_entry_def
             appendLog_def read_property_def split: sum.splits)
qed

lemma process_org_unfold:
  "processOrganizationToClerk cfg w u s =
     (case organizationSchema_safeParse u of
        Inl e \<Rightarrow>
          if u = JNull then Some (Aborted TypeError s)
          else Some (Completed (appendLog (org_entry ''userId'' u e) s))
      | Inr d \<Rightarrow>
          (case createOrganization w d s of
             (Inr x, s1) \<Rightarrow> Some (Completed (s1\<lparr>migrated := migrated s1 + 1\<rparr>))
           | (Inl e, s1) \<Rightarrow>
               if status e = Some 422
               then Some (Completed ((appendLog (org_entry ''organizationId'' u e) s1)
                          \<lparr>alreadyExists := alreadyExists s1 + 1\<rparr>))
               else if status e = Some 429
               then processOrganizationToClerk cfg w u
                      ((rateLimitCooldown cfg (s1\<lparr>spinner_text := rate_limit_text (spinner_text s) cfg\<rparr>))
                       \<lparr>spinner_text := spinner_text s\<rparr>)
               else Some (Completed (appendLog (org_entry ''userId'' u e) s1))))"
proof (cases "organizationSchema_safeParse u")
  case (Inl e)
  with organizationSchema_error_status[OF Inl] show ?thesis
    by (subst processOrganizationToClerk.simps) (simp add: Let_def org_entry_def read_property_def)
next
  case (Inr d)
  with organizationSchema_valid_not_null[OF Inr] show ?thesis
    by (subst processOrganizationToClerk.simps)
       (simp add: Let_def org_entry_def read_property_def split: sum.splits prod.splits)
qed

section \<open>The example runs\<close>

lemma example_startup: "startup example_env = Inr example_config"
  by (simp add: startup_def example_env_def example_config_def index_def Let_def)

lemma example_users_file:
  "readFile example_world (users_file example_env) =
     Inr [good_record ''1'', bad_record, good_record ''3'']"
  by (simp add: example_world_def example_env_def users_file_def)

lemma example_organizations_file:
  "readFile example_world (organizations_file example_env) = Inr [good_org ''A'', good_org ''B'']"
  by (simp add: example_world_def example_env_def organizations_file_def)

lemma example_createUser:
  "users_createUser example_world t p =
     (if t = 1 then Inl (GatewayError (Some 429) ''rate'') else Inr ())"
  by (simp add: example_world_def)

lemma example_getUserList:
  "users_getUserList example_world t a =
     (if t = 4 then Inl (GatewayError None ''network'') else Inr [\<lparr>user_id = ''user_1''\<rparr>])"
  by (simp add: example_world_def)

lemma example_createOrganization:
  "organizations_createOrganization example_world t p =
     (if t = 1 then Inl (GatewayError (Some 429) ''rate'')
      else if t = 5 then Inl (GatewayError (Some 422) ''taken'') else Inr ())"
  by (simp add: example_world_def)

lemma good_record_valid: "userSchema_safeParse example_world (good_record i) = Inr (example_user i)"
  by (simp add: userSchema_safeParse_def userSchema_object_def userSchema_issues_def issue_def
       oid_object_def email_string_def required_string_def optional_string_def
       optional_boolean_def
       good_record_def example_world_def user_with_password_def example_user_def)

lemma bad_record_invalid:
  "userSchema_safeParse example_world bad_record = Inl (ZodError [''email''])"
  by (simp add: userSchema_safeParse_def userSchema_object_def userSchema_issues_def issue_def
       oid_object_def email_string_def required_string_def optional_string_def
       optional_boolean_def
       bad_record_def example_world_def)

lemma bad_record_not_null: "bad_record \<noteq> JNull"
  by (simp add: bad_record_def)

lemma good_org_valid: "organizationSchema_safeParse (good_org i) = Inr (example_org i)"
  by (simp add: organizationSchema_safeParse_def organizationSchema_object_def
       organizationSchema_issues_def issue_def oid_object_def required_string_def good_org_def
       example_org_def)

lemma example_users_run:
  "\<exists>s'. run_users example_env example_world = Some (Completed s') \<and>
        migrated s' = 2 \<and> alreadyExists s' = 0 \<and>
        logged (trace s') = [user_entry bad_record (ZodError [''email''])] \<and>
        user_calls (trace s') =
          [createUser_params (example_user ''1''), createUser_params (example_user ''3''),
           createUser_params (example_user ''3'')] \<and>
        throttles (trace s') = [1000, 1000, 1000]"
  apply (simp add: run_users_unfold[OF example_startup example_users_file] slice_def example_config_def)
  apply (simp add: cooldown_def emit_def init_def Let_def)
  apply (subst process_user_unfold)
  apply (simp add: good_record_valid example_createUser called_def)
  apply (subst process_user_unfold)
  apply (simp add: bad_record_invalid bad_record_not_null appendLog_def emit_def cooldown_def)
  apply (subst process_user_unfold)
  apply (simp add: good_record_valid example_createUser called_def rateLimitCooldown_def emit_def)
  apply (subst process_user_unfold)
  apply (simp add: good_record_valid example_createUser called_def rateLimitCooldown_def emit_def)
  apply (simp add: users_summary_def users_prologue_def logged_append user_calls_append throttles_append)
  done

lemma example_organizations_run:
  "\<exists>s'. run_organizations example_env example_world = Some (Completed s') \<and>
        migrated s' = 1 \<and> alreadyExists s' = 1 \<and>
        logged (trace s') = [org_entry ''organizationId'' (good_org ''B'') (GatewayError (Some 422) ''taken'')] \<and>
        throttles (trace s') = [1000, 1000]"
  apply (simp add: run_organizations_unfold[OF example_startup example_organizations_file] slice_def example_config_def)
  apply (simp add: cooldown_def emit_def init_def Let_def)
  apply (subst process_org_unfold)
  apply (simp add: good_org_valid createOrganization_def getUserByEmail_def Let_def index_def
           example_getUserList example_createOrganization rateLimitCooldown_def emit_def)
  apply (subst process_org_unfold)
  apply (simp add: good_org_valid createOrganization_def getUserByEmail_def Let_def index_def
           example_getUserList example_createOrganization rateLimitCooldown_def emit_def cooldown_def)
  apply (subst process_org_unfold)
  apply (simp add: good_org_valid createOrganization_def getUserByEmail_def Let_def index_def
           example_getUserList example_createOrganization rateLimitCooldown_def emit_def appendLog_def)
  apply (simp add: organizations_summary_def organizations_prologue_def logged_append throttles_append)
  done

section \<open>The three buckets\<close>

lemma length_slice: "0 \<le> k \<Longrightarrow> length (slice k xs) = length xs - nat k"
  by (simp add: slice_def)

lemma users_frame:
  "logged (users_prologue cfg f) = []" "logged (users_summary s) = []"
  "throttles (users_prologue cfg f) = []" "throttles (users_summary s) = []"
  by (simp_all add: users_prologue_def users_summary_def)

lemma organizations_frame:
  "logged (organizations_prologue cfg f) = []" "logged (organizations_summary s) = []"
  "throttles (organizations_prologue cfg f) = []" "throttles (organizations_summary s) = []"
  by (simp_all add: organizations_prologue_def organizations_summary_def)

lemma run_users_partition:
  assumes "run_users e w = Some (Completed s')" "startup e = Inr cfg"
    "readFile w (users_file e) = Inr recs"
  shows "migrated s' + alreadyExists s' + length (permanent_failures (trace s')) =
           length (slice (OFFSET cfg) recs)"
proof -
  from run_users_completed[OF assms] obtain segs where
    tr: "trace s' = users_prologue cfg (users_file e) @ throttled cfg segs @ users_summary s'"
    and sum: "migrated s' + alreadyExists s' + length (permanent_failures (concat segs)) =
             length (slice (OFFSET cfg) recs)"
    by blast
  have "permanent_failures (trace s') = permanent_failures (concat segs)"
    by (simp add: tr permanent_failures_append permanent_failures_throttled)
       (simp add: permanent_failures_def users_frame)
  with sum show ?thesis by simp
qed

lemma run_organizations_partition:
  assumes "run_organizations e w = Some (Completed s')" "startup e = Inr cfg"
    "readFile w (organizations_file e) = Inr recs"
  shows "migrated s' + alreadyExists s' + length (permanent_failures (trace s')) =
           length (slice (OFFSET cfg) recs)"
proof -
  from run_organizations_completed[OF assms] obtain segs where
    tr: "trace s' = organizations_prologue cfg (organizations_file e) @ throttled cfg segs @
                      organizations_summary s'"
    and sum: "migrated s' + alreadyExists s' + length (permanent_failures (concat segs)) =
             length (slice (OFFSET cfg) recs)"
    by blast
  have "permanent_failures (trace s') = permanent_failures (concat segs)"
    by (simp add: tr permanent_failures_append permanent_failures_throttled)
       (simp add: permanent_failures_def organizations_frame)
  with sum show ?thesis by simp
qed

text \<open>
  Claim C1. When a run over an input file of \<open>n\<close> records with offset
  \<open>k \<ge> 0\<close> completes, the migrated counter, the already-exists counter and
  the number of permanent-failure entries written to the log add up to
  \<open>n - k\<close>, the number of records from index \<open>k\<close> on (none when \<open>k\<close>
  exceeds \<open>n\<close>), for users and for organizations.
\<close>

theorem counters_partition:
  "(run_users e w = Some (Completed s') \<and> startup e = Inr cfg \<and>
    readFile w (users_file e) = Inr recs \<and> 0 \<le> OFFSET cfg \<longrightarrow>
    migrated s' + alreadyExists s' + length (permanent_failures (trace s')) =
      length recs - nat (OFFSET cfg)) \<and>
   (run_organizations e w = Some (Completed s') \<and> startup e = Inr cfg \<and>
    readFile w (organizations_file e) = Inr recs \<and> 0 \<le> OFFSET cfg \<longrightarrow>
    migrated s' + alreadyExists s' + length (permanent_failures (trace s')) =
      length recs - nat (OFFSET cfg))"
  using run_users_partition[of e w s' cfg recs] run_organizations_partition[of e w s' cfg recs]
    length_slice[of "OFFSET cfg" recs]
  by auto

theorem counters_partition_witness:
  "(\<exists>s'. run_users example_env example_world = Some (Completed s') \<and>
         migrated s' + alreadyExists s' + length (permanent_failures (trace s')) = 3) \<and>
   (\<exists>s'. run_organizations example_env example_world = Some (Completed s') \<and>
         migrated s' + alreadyExists s' + length (permanent_failures (trace s')) = 2)"
proof
  from example_users_run obtain s' where
    run: "run_users example_env example_world = Some (Completed s')" by blast
  have "migrated s' + alreadyExists s' + length (permanent_failures (trace s')) = 3"
    using counters_partition[of example_env example_world s' example_config
        "[good_record ''1'', bad_record, good_record ''3'']"]
      run example_startup example_users_file
    by (simp add: example_config_def)
  with run show "\<exists>s'. run_users example_env example_world = Some (Completed s') \<and>
         migrated s' + alreadyExists s' + length (permanent_failures (trace s')) = 3"
    by blast
next
  from example_organizations_run obtain s' where
    run: "run_organizations example_env example_world = Some (Completed s')" by blast
  have "migrated s' + alreadyExists s' + length (permanent_failures (trace s')) = 2"
    using counters_partition[of example_env example_world s' example_config
        "[good_org ''A'', good_org ''B'']"]
      run example_startup example_organizations_file
    by (simp add: example_config_def)
  with run show "\<exists>s'. run_organizations example_env example_world = Some (Completed s') \<and>
         migrated s' + alreadyExists s' + length (permanent_failures (trace s')) = 2"
    by blast
qed

section \<open>The summary\<close>

lemma users_console:
  "console (users_prologue cfg f) =
     [''Clerk User Migration Utility'', ''Fetching users from '' @ f,
      ''users.json found and parsed, attempting migration with an offset of '' @
        show_int (OFFSET cfg)]"
  "console (users_summary s) =
     [show_nat (migrated s) @ '' users migrated'',
      show_nat (alreadyExists s) @ '' users failed to upload'']"
  by (simp_all add: users_prologue_def users_summary_def)

lemma organizations_console:
  "console (organizations_prologue cfg f) =
     [''Clerk User Migration Utility'', ''Fetching organizations from '' @ f,
      ''organizations.json found and parsed, attempting migration with an offset of '' @
        show_int (OFFSET cfg)]"
  "console (organizations_summary s) =
     [show_nat (migrated s) @ '' organizations migrated'',
      show_nat (alreadyExists s) @ '' organizations failed to upload'']"
  by (simp_all add: organizations_prologue_def organizations_summary_def)

lemma run_users_summary:
  assumes "run_users e w = Some (Completed s')"
  shows "\<exists>cfg. startup e = Inr cfg \<and>
           console (trace s') = console (users_prologue cfg (users_file e)) @
             [show_nat (migrated s') @ '' users migrated'',
              show_nat (alreadyExists s') @ '' users failed to upload''] \<and>
           alreadyExists s' = length (conflicts (trace s'))"
proof -
  from run_users_inputs[OF assms] obtain cfg recs where
    in1: "startup e = Inr cfg" and in2: "readFile w (users_file e) = Inr recs" by blast
  from run_users_completed[OF assms in1 in2] obtain segs where
    c: "list_all (\<lambda>seg. console seg = []) segs" and
    tr: "trace s' = users_prologue cfg (users_file e) @ throttled cfg segs @ users_summary s'" and
    ae: "alreadyExists s' = length (conflicts (concat segs))"
    by blast
  have "conflicts (trace s') = conflicts (concat segs)"
    by (simp add: tr conflicts_append conflicts_throttled) (simp add: conflicts_def users_frame)
  moreover have "console (trace s') = console (users_prologue cfg (users_file e)) @
             [show_nat (migrated s') @ '' users migrated'',
              show_nat (alreadyExists s') @ '' users failed to upload'']"
    by (simp add: tr console_append console_throttled[OF c] users_console(2))
  ultimately show ?thesis using in1 ae by simp
qed

lemma run_organizations_summary:
  assumes "run_organizations e w = Some (Completed s')"
  shows "\<exists>cfg. startup e = Inr cfg \<and>
           console (trace s') = console (organizations_prologue cfg (organizations_file e)) @
             [show_nat (migrated s') @ '' organizations migrated'',
              show_nat (alreadyExists s') @ '' organizations failed to upload''] \<and>
           alreadyExists s' = length (conflicts (trace s'))"
proof -
  from run_organizations_inputs[OF assms] obtain cfg recs where
    in1: "startup e = Inr cfg" and in2: "readFile w (organizations_file e) = Inr recs" by blast
  from run_organizations_completed[OF assms in1 in2] obtain segs where
    c: "list_all (\<lambda>seg. console seg = []) segs" and
    tr: "trace s' = organizations_prologue cfg (organizations_file e) @ throttled cfg segs @
           organizations_summary s'" and
    ae: "alreadyExists s' = length (conflicts (concat segs))"
    by blast
  have "conflicts (trace s') = conflicts (concat segs)"
    by (simp add: tr conflicts_append conflicts_throttled) (simp add: conflicts_def organizations_frame)
  moreover have "console (trace s') = console (organizations_prologue cfg (organizations_file e)) @
             [show_nat (migrated s') @ '' organizations migrated'',
              show_nat (alreadyExists s') @ '' organizations failed to upload'']"
    by (simp add: tr console_append console_throttled[OF c] organizations_console(2))
  ultimately show ?thesis using in1 ae by simp
qed

text \<open>
  Claim C6. A run that completes prints, after the three lines of the
  prologue, exactly two lines: the migrated counter followed by
  \<open>migrated\<close>, and the already-exists counter followed by
  \<open>failed to upload\<close>. That counter is the number of conflict entries
  (status 422) in the log, not the number of permanent failures.
\<close>

theorem summary_lines:
  "(run_users e w = Some (Completed s') \<longrightarrow>
      (\<exists>cfg. startup e = Inr cfg \<and>
         console (trace s') = console (users_prologue cfg (users_file e)) @
           [show_nat (migrated s') @ '' users migrated'',
            show_nat (alreadyExists s') @ '' users failed to upload''] \<and>
         alreadyExists s' = length (conflicts (trace s')))) \<and>
   (run_organizations e w = Some (Completed s') \<longrightarrow>
      (\<exists>cfg. startup e = Inr cfg \<and>
         console (trace s') = console (organizations_prologue cfg (organizations_file e)) @
           [show_nat (migrated s') @ '' organizations migrated'',
            show_nat (alreadyExists s') @ '' organizations failed to upload''] \<and>
         alreadyExists s' = length (conflicts (trace s'))))"
  using run_users_summary[of e w s'] run_organizations_summary[of e w s'] by blast

theorem summary_lines_witness:
  "(\<exists>s'. run_users example_env example_world = Some (Completed s') \<and>
      console (trace s') =
        [''Clerk User Migration Utility'', ''Fetching users from users.json'',
         ''users.json found and parsed, attempting migration with an offset of 0'',
         ''2 users migrated'', ''0 users failed to upload''] \<and>
      length (permanent_failures (trace s')) = 1) \<and>
   (\<exists>s'. run_organizations example_env example_world = Some (Completed s') \<and>
      console (trace s') =
        [''Clerk User Migration Utility'', ''Fetching organizations from organizations.json'',
         ''organizations.json found and parsed, attempting migration with an offset of 0'',
         ''1 organizations migrated'', ''1 organizations failed to upload''] \<and>
      length (permanent_failures (trace s')) = 0)"
proof
  from example_users_run obtain s' where
    run: "run_users example_env example_world = Some (Completed s')" and
    vals: "migrated s' = 2" "alreadyExists s' = 0"
      "logged (trace s') = [user_entry bad_record (ZodError [''email''])]" by blast
  from summary_lines[of example_env example_world s'] run example_startup
  have "console (trace s') = console (users_prologue example_config (users_file example_env)) @
           [show_nat (migrated s') @ '' users migrated'',
            show_nat (alreadyExists s') @ '' users failed to upload'']" by auto
  then have "console (trace s') =
        [''Clerk User Migration Utility'', ''Fetching users from users.json'',
         ''users.json found and parsed, attempting migration with an offset of 0'',
         ''2 users migrated'', ''0 users failed to upload'']"
    by (simp add: vals users_console users_file_def example_env_def example_config_def show_int_def)
  moreover have "length (permanent_failures (trace s')) = 1"
    by (simp add: permanent_failures_def vals user_entry_def)
  ultimately show "\<exists>s'. run_users example_env example_world = Some (Completed s') \<and>
      console (trace s') =
        [''Clerk User Migration Utility'', ''Fetching users from users.json'',
         ''users.json found and parsed, attempting migration with an offset of 0'',
         ''2 users migrated'', ''0 users failed to upload''] \<and>
      length (permanent_failures (trace s')) = 1"
    using run by blast
next
  from example_organizations_run obtain s' where
    run: "run_organizations example_env example_world = Some (Completed s')" and
    vals: "migrated s' = 1" "alreadyExists s' = 1"
      "logged (trace s') = [org_entry ''organizationId'' (good_org ''B'') (GatewayError (Some 422) ''taken'')]"
    by blast
  from summary_lines[of example_env example_world s'] run example_startup
  have "console (trace s') =
          console (organizations_prologue example_config (organizations_file example_env)) @
           [show_nat (migrated s') @ '' organizations migrated'',
            show_nat (alreadyExists s') @ '' organizations failed to upload'']" by auto
  then have "console (trace s') =
        [''Clerk User Migration Utility'', ''Fetching organizations from organizations.json'',
         ''organizations.json found and parsed, attempting migration with an offset of 0'',
         ''1 organizations migrated'', ''1 organizations failed to upload'']"
    by (simp add: vals organizations_console organizations_file_def example_env_def
          example_config_def show_int_def)
  moreover have "length (permanent_failures (trace s')) = 0"
    by (simp add: permanent_failures_def vals org_entry_def)
  ultimately show "\<exists>s'. run_organizations example_env example_world = Some (Completed s') \<and>
      console (trace s') =
        [''Clerk User Migration Utility'', ''Fetching organizations from organizations.json'',
         ''organizations.json found and parsed, attempting migration with an offset of 0'',
         ''1 organizations migrated'', ''1 organizations failed to upload''] \<and>
      length (permanent_failures (trace s')) = 0"
    using run by blast
qed

section \<open>The startup checks\<close>

lemma startup_refused: "refused e \<Longrightarrow> \<exists>msg. startup e = Inl (ConfigurationError msg)"
  by (auto simp: refused_def startup_def looks_live_def Let_def split: option.splits)

lemma startup_accepted:
  "\<not> refused e \<Longrightarrow> \<exists>cfg. startup e = Inr cfg \<and> CLERK_SECRET_KEY e = Some (SECRET_KEY cfg)"
  by (auto simp: refused_def startup_def looks_live_def Let_def split: option.splits)

lemma process_user_extends:
  "processUserToClerk cfg w u s = Some r \<Longrightarrow> \<exists>ext. trace (state_of r) = trace s @ ext"
proof (induction cfg w u s r rule: processUserToClerk.raw_induct[rotated 1, consumes 1])
  case (1 f cfg w u s r)
  note ih = 1(1) and body = 1(2)
  show ?case
  proof (cases "userSchema_safeParse w u")
    case (Inl e)
    with body userSchema_error_status[OF Inl] show ?thesis
      by (auto simp: Let_def state_of_def read_property_def appendLog_def emit_def
            split: if_splits)
  next
    case (Inr d)
    show ?thesis
    proof (cases "users_createUser w (clock s) (createUser_params d)")
      case (Inr x)
      with body \<open>userSchema_safeParse w u = Inr d\<close> show ?thesis
        by (auto simp: Let_def state_of_def createUser_def)
    next
      case (Inl e)
      show ?thesis
      proof (cases "status e = Some 429")
        case True
        with body \<open>userSchema_safeParse w u = Inr d\<close> Inl
        have "f cfg w u (rateLimitCooldown cfg (called d s)) = Some r"
          by (simp add: Let_def createUser_def called_def rateLimitCooldown_def emit_def)
        from ih[OF this] obtain ext where
          "trace (state_of r) = trace (rateLimitCooldown cfg (called d s)) @ ext" ..
        then show ?thesis by (simp add: rateLimitCooldown_def called_def emit_def)
      next
        case False
        with body \<open>userSchema_safeParse w u = Inr d\<close> Inl show ?thesis
          by (auto simp: Let_def state_of_def createUser_def read_property_def appendLog_def
                emit_def split: if_splits)
      qed
    qed
  qed
qed

lemma process_org_extends:
  "processOrganizationToClerk cfg w u s = Some r \<Longrightarrow> \<exists>ext. trace (state_of r) = trace s @ ext"
proof (induction cfg w u s r rule: processOrganizationToClerk.raw_induct[rotated 1, consumes 1])
  case (1 f cfg w u s r)
  note ih = 1(1) and body = 1(2)
  show ?case
  proof (cases "organizationSchema_safeParse u")
    case (Inl e)
    with body organizationSchema_error_status[OF Inl] show ?thesis
      by (auto simp: Let_def state_of_def read_property_def appendLog_def emit_def
            split: if_splits)
  next
    case (Inr d)
    obtain a s1 where att: "createOrganization w d s = (a, s1)"
      by (cases "createOrganization w d s")
    from createOrganization_state[OF att] obtain pre where pre: "trace s1 = trace s @ pre"
      by blast
    show ?thesis
    proof (cases a)
      case (Inr x)
      with body \<open>organizationSchema_safeParse u = Inr d\<close> att pre show ?thesis
        by (auto simp: Let_def state_of_def)
    next
      case (Inl e)
      show ?thesis
      proof (cases "status e = Some 429")
        case True
        with body \<open>organizationSchema_safeParse u = Inr d\<close> att Inl
        have "f cfg w u ((rateLimitCooldown cfg
                 (s1\<lparr>spinner_text := rate_limit_text (spinner_text s) cfg\<rparr>))
                \<lparr>spinner_text := spinner_text s\<rparr>) = Some r"
          by (simp add: Let_def)
        from ih[OF this] obtain ext where
          "trace (state_of r) = trace ((rateLimitCooldown cfg
                 (s1\<lparr>spinner_text := rate_limit_text (spinner_text s) cfg\<rparr>))
                \<lparr>spinner_text := spinner_text s\<rparr>) @ ext" ..
        with pre show ?thesis by (simp add: rateLimitCooldown_def emit_def)
      next
        case False
        with body \<open>organizationSchema_safeParse u = Inr d\<close> att Inl pre show ?thesis
          by (auto simp: Let_def state_of_def read_property_def appendLog_def emit_def
                split: if_splits)
      qed
    qed
  qed
qed

lemma migrate_users_extends:
  "migrate_users cfg w len i us s = Some r \<Longrightarrow> \<exists>ext. trace (state_of r) = trace s @ ext"
proof (induction us arbitrary: s i)
  case Nil
  then show ?case by (auto simp: state_of_def)
next
  case (Cons u us)
  obtain r1 where p: "processUserToClerk cfg w u (before_record cfg len i s) = Some r1"
    using Cons.prems by (cases "processUserToClerk cfg w u (before_record cfg len i s)")
      (simp_all add: before_record_def Let_def)
  from process_user_extends[OF p] obtain ext1 where
    e1: "trace (state_of r1) = trace s @ Cooldown (DELAY cfg) # ext1"
    by (auto simp: before_record_def cooldown_def emit_def)
  show ?case
  proof (cases r1)
    case (Aborted thrown s4)
    with Cons.prems p have "r = r1" by (simp add: before_record_def Let_def)
    with e1 show ?thesis by blast
  next
    case (Completed s4)
    with Cons.prems p have "migrate_users cfg w len (i + 1) us s4 = Some r"
      by (simp add: before_record_def Let_def)
    from Cons.IH[OF this] obtain ext where "trace (state_of r) = trace s4 @ ext" ..
    with e1 Completed show ?thesis by (simp add: state_of_def)
  qed
qed

lemma migrate_organizations_extends:
  "migrate_organizations cfg w len i us s = Some r \<Longrightarrow>
   \<exists>ext. trace (state_of r) = trace s @ ext"
proof (induction us arbitrary: s i)
  case Nil
  then show ?case by (auto simp: state_of_def)
next
  case (Cons u us)
  obtain r1 where p: "processOrganizationToClerk cfg w u (before_record cfg len i s) = Some r1"
    using Cons.prems by (cases "processOrganizationToClerk cfg w u (before_record cfg len i s)")
      (simp_all add: before_record_def Let_def)
  from process_org_extends[OF p] obtain ext1 where
    e1: "trace (state_of r1) = trace s @ Cooldown (DELAY cfg) # ext1"
    by (auto simp: before_record_def cooldown_def emit_def)
  show ?case
  proof (cases r1)
    case (Aborted thrown s4)
    with Cons.prems p have "r = r1" by (simp add: before_record_def Let_def)
    with e1 show ?thesis by blast
  next
    case (Completed s4)
    with Cons.prems p have "migrate_organizations cfg w len (i + 1) us s4 = Some r"
      by (simp add: before_record_def Let_def)
    from Cons.IH[OF this] obtain ext where "trace (state_of r) = trace s4 @ ext" ..
    with e1 Completed show ?thesis by (simp add: state_of_def)
  qed
qed

lemma main_reads:
  assumes "main cfg w arg init = Some r"
  shows "take 3 (trace (state_of r)) =
     [ConsoleLog ''Clerk User Migration Utility'',
      ConsoleLog (''Fetching users from '' @ (case arg of None \<Rightarrow> ''users.json'' | Some f \<Rightarrow> f)),
      ReadFile (case arg of None \<Rightarrow> ''users.json'' | Some f \<Rightarrow> f)]"
proof (cases "readFile w (case arg of None \<Rightarrow> ''users.json'' | Some f \<Rightarrow> f)")
  case (Inl f)
  with assms show ?thesis
    by (auto simp: main_def Let_def emit_def init_def state_of_def)
next
  case (Inr recs)
  with assms have
    "migrate_users cfg w (length (slice (OFFSET cfg) recs)) 0 (slice (OFFSET cfg) recs)
            (init\<lparr>trace := users_prologue cfg (case arg of None \<Rightarrow> ''users.json'' | Some f \<Rightarrow> f),
                  spinner_text := ''Migrating users''\<rparr>) = Some r"
    by (simp add: main_def Let_def emit_def init_def users_prologue_def)
  from migrate_users_extends[OF this] obtain ext where
    "trace (state_of r) =
       users_prologue cfg (case arg of None \<Rightarrow> ''users.json'' | Some f \<Rightarrow> f) @ ext"
    by auto
  then show ?thesis by (simp add: users_prologue_def)
qed

lemma main_org_reads:
  assumes "main_org cfg w arg init = Some r"
  shows "take 3 (trace (state_of r)) =
     [ConsoleLog ''Clerk User Migration Utility'',
      ConsoleLog (''Fetching organizations from '' @
        (case arg of None \<Rightarrow> ''organizations.json'' | Some f \<Rightarrow> f)),
      ReadFile (case arg of None \<Rightarrow> ''organizations.json'' | Some f \<Rightarrow> f)]"
proof (cases "readFile w (case arg of None \<Rightarrow> ''organizations.json'' | Some f \<Rightarrow> f)")
  case (Inl f)
  with assms show ?thesis
    by (auto simp: main_org_def Let_def emit_def init_def state_of_def)
next
  case (Inr recs)
  with assms have
    "migrate_organizations cfg w (length (slice (OFFSET cfg) recs)) 0 (slice (OFFSET cfg) recs)
            (init\<lparr>trace := organizations_prologue cfg
                     (case arg of None \<Rightarrow> ''organizations.json'' | Some f \<Rightarrow> f),
                  spinner_text := ''Migrating users''\<rparr>) = Some r"
    by (simp add: main_org_def Let_def emit_def init_def organizations_prologue_def)
  from migrate_organizations_extends[OF this] obtain ext where
    "trace (state_of r) =
       organizations_prologue cfg
         (case arg of None \<Rightarrow> ''organizations.json'' | Some f \<Rightarrow> f) @ ext"
    by auto
  then show ?thesis by (simp add: organizations_prologue_def)
qed

lemma run_users_reads:
  assumes "run_users e w = Some r" "startup e = Inr cfg"
  shows "ReadFile (users_file e) \<in> set (trace (state_of r))"
proof -
  from assms obtain r0 where m: "main cfg w (argv2 e) init = Some r0"
    by (cases "main cfg w (argv2 e) init") (simp_all add: run_users_def)
  have "ReadFile (users_file e) \<in> set (take 3 (trace (state_of r0)))"
    by (simp add: main_reads[OF m] users_file_def)
  then have r0: "ReadFile (users_file e) \<in> set (trace (state_of r0))"
    by (rule in_set_takeD)
  show ?thesis
  proof (cases r0)
    case (Completed s)
    with assms m have "r = Completed (emit (ConsoleLog (show_nat (alreadyExists s) @ '' users failed to upload''))
                   (emit (ConsoleLog (show_nat (migrated s) @ '' users migrated'')) s))"
      by (simp add: run_users_def)
    then have "trace (state_of r) = trace s @ users_summary s"
      by (simp add: state_of_def emit_def users_summary_def)
    with r0 Completed show ?thesis by (simp add: state_of_def)
  next
    case (Aborted f s)
    with assms m have "r = r0" by (simp add: run_users_def)
    with r0 show ?thesis by simp
  qed
qed

lemma run_organizations_reads:
  assumes "run_organizations e w = Some r" "startup e = Inr cfg"
  shows "ReadFile (organizations_file e) \<in> set (trace (state_of r))"
proof -
  from assms obtain r0 where m: "main_org cfg w (argv2 e) init = Some r0"
    by (cases "main_org cfg w (argv2 e) init") (simp_all add: run_organizations_def)
  have "ReadFile (organizations_file e) \<in> set (take 3 (trace (state_of r0)))"
    by (simp add: main_org_reads[OF m] organizations_file_def)
  then have r0: "ReadFile (organizations_file e) \<in> set (trace (state_of r0))"
    by (rule in_set_takeD)
  show ?thesis
  proof (cases r0)
    case (Completed s)
    with assms m have "r = Completed (emit (ConsoleLog (show_nat (alreadyExists s) @ '' organizations failed to upload''))
                   (emit (ConsoleLog (show_nat (migrated s) @ '' organizations migrated'')) s))"
      by (simp add: run_organizations_def)
    then have "trace (state_of r) = trace s @ organizations_summary s"
      by (simp add: state_of_def emit_def organizations_summary_def)
    with r0 Completed show ?thesis by (simp add: state_of_def)
  next
    case (Aborted f s)
    with assms m have "r = r0" by (simp add: run_organizations_def)
    with r0 show ?thesis by simp
  qed
qed

text \<open>
  Claim C7. When the credential is absent, or does not look like a production
  credential while the import-to-dev flag is not set or is \<open>false\<close>, both
  scripts stop with a configuration error in the initial state: nothing has
  been printed, read or sent. Otherwise the startup checks pass and every
  result of a run has read the input file.
\<close>

theorem startup_guard:
  "(refused e \<longrightarrow>
      (\<exists>msg. run_users e w = Some (Aborted (ConfigurationError msg) init) \<and>
             run_organizations e w = Some (Aborted (ConfigurationError msg) init)) \<and>
      trace init = []) \<and>
   (\<not> refused e \<longrightarrow>
      (\<exists>cfg. startup e = Inr cfg) \<and>
      (\<forall>r. run_users e w = Some r \<longrightarrow> ReadFile (users_file e) \<in> set (trace (state_of r))) \<and>
      (\<forall>r. run_organizations e w = Some r \<longrightarrow>
           ReadFile (organizations_file e) \<in> set (trace (state_of r))))"
proof (intro conjI impI)
  assume "refused e"
  from startup_refused[OF this] obtain msg where "startup e = Inl (ConfigurationError msg)" ..
  then have "run_users e w = Some (Aborted (ConfigurationError msg) init) \<and>
             run_organizations e w = Some (Aborted (ConfigurationError msg) init)"
    by (simp add: run_users_def run_organizations_def)
  then show "\<exists>msg. run_users e w = Some (Aborted (ConfigurationError msg) init) \<and>
             run_organizations e w = Some (Aborted (ConfigurationError msg) init)" ..
next
  show "trace init = []" by (simp add: init_def)
next
  assume "\<not> refused e"
  from startup_accepted[OF this] show "\<exists>cfg. startup e = Inr cfg" by blast
next
  assume "\<not> refused e"
  from startup_accepted[OF this] obtain cfg where "startup e = Inr cfg" by blast
  then show "\<forall>r. run_users e w = Some r \<longrightarrow> ReadFile (users_file e) \<in> set (trace (state_of r))"
    using run_users_reads by blast
next
  assume "\<not> refused e"
  from startup_accepted[OF this] obtain cfg where "startup e = Inr cfg" by blast
  then show "\<forall>r. run_organizations e w = Some r \<longrightarrow>
           ReadFile (organizations_file e) \<in> set (trace (state_of r))"
    using run_organizations_reads by blast
qed

theorem startup_guard_witness:
  "(\<exists>msg. run_users (example_env\<lparr>CLERK_SECRET_KEY := Some ''sk_test_x''\<rparr>) example_world =
            Some (Aborted (ConfigurationError msg) init)) \<and>
   (\<exists>msg. run_organizations (example_env\<lparr>CLERK_SECRET_KEY := None\<rparr>) example_world =
            Some (Aborted (ConfigurationError msg) init)) \<and>
   (\<exists>cfg. startup (example_env\<lparr>CLERK_SECRET_KEY := Some ''sk_test_x'',
                                 IMPORT_TO_DEV_INSTANCE := Some ''true''\<rparr>) = Inr cfg) \<and>
   (\<exists>cfg. startup example_env = Inr cfg)"
proof -
  have r1: "refused (example_env\<lparr>CLERK_SECRET_KEY := Some ''sk_test_x''\<rparr>)"
    by (simp add: refused_def example_env_def looks_live_def index_def)
  have r2: "refused (example_env\<lparr>CLERK_SECRET_KEY := None\<rparr>)"
    by (simp add: refused_def)
  have a1: "\<not> refused (example_env\<lparr>CLERK_SECRET_KEY := Some ''sk_test_x'',
                                 IMPORT_TO_DEV_INSTANCE := Some ''true''\<rparr>)"
    by (simp add: refused_def example_env_def looks_live_def index_def)
  have a2: "\<not> refused example_env"
    by (simp add: refused_def example_env_def looks_live_def index_def)
  show ?thesis
    using startup_guard[of "example_env\<lparr>CLERK_SECRET_KEY := Some ''sk_test_x''\<rparr>" example_world]
      startup_guard[of "example_env\<lparr>CLERK_SECRET_KEY := None\<rparr>" example_world]
      startup_guard[of "example_env\<lparr>CLERK_SECRET_KEY := Some ''sk_test_x'',
                                 IMPORT_TO_DEV_INSTANCE := Some ''true''\<rparr>" example_world]
      startup_guard[of example_env example_world] r1 r2 a1 a2
    by blast
qed

section \<open>The offset\<close>















section \<open>The inter-record wait\<close>

lemma waited_append: "waited (xs @ ys) = waited xs + waited ys"
  by (induction xs rule: waited.induct) auto

lemma timer_duration_positive: "1 \<le> timer_duration ms"
  by (simp add: timer_duration_def)

lemma timer_duration_in_range:
  "0 \<le> ms \<Longrightarrow> ms \<le> TIMEOUT_MAX \<Longrightarrow> ms \<le> timer_duration ms"
  by (simp add: timer_duration_def)

lemma waited_nonneg: "0 \<le> waited tr"
proof (induction tr rule: waited.induct)
  case (2 d es)
  with timer_duration_positive[of d] show ?case by simp
next
  case (3 d es)
  with timer_duration_positive[of d] show ?case by simp
qed simp_all

lemma waited_throttled:
  "int (length segs) * timer_duration (DELAY cfg) \<le> waited (throttled cfg segs)"
proof (induction segs)
  case Nil
  show ?case by (simp add: throttled_Nil)
next
  case (Cons seg segs)
  with waited_nonneg[of seg] show ?case
    by (simp add: throttled_Cons waited_append algebra_simps)
qed

lemma run_users_throttle:
  assumes "run_users e w = Some (Completed s')" "startup e = Inr cfg"
    "readFile w (users_file e) = Inr recs"
  shows "(\<exists>segs. list_all2 (user_segment cfg w) (slice (OFFSET cfg) recs) segs \<and>
            list_all (\<lambda>seg. throttles seg = []) segs \<and>
            trace s' = users_prologue cfg (users_file e) @
              concat (map (\<lambda>seg. Cooldown (DELAY cfg) # seg) segs) @ users_summary s') \<and>
         throttles (trace s') = replicate (length (slice (OFFSET cfg) recs)) (DELAY cfg) \<and>
         int (length (slice (OFFSET cfg) recs)) * timer_duration (DELAY cfg) \<le> waited (trace s')"
proof -
  from run_users_completed[OF assms] obtain segs where
    a: "list_all2 (user_segment cfg w) (slice (OFFSET cfg) recs) segs" and
    t: "list_all (\<lambda>seg. throttles seg = []) segs" and
    tr: "trace s' = users_prologue cfg (users_file e) @ throttled cfg segs @ users_summary s'"
    by blast
  from a have len: "length segs = length (slice (OFFSET cfg) recs)"
    by (auto dest: list_all2_lengthD)
  have th: "throttles (trace s') = replicate (length (slice (OFFSET cfg) recs)) (DELAY cfg)"
    by (simp add: tr throttles_append throttles_throttled[OF t] users_frame len)
  have "int (length segs) * timer_duration (DELAY cfg) \<le> waited (trace s')"
    using waited_throttled[of segs cfg] waited_nonneg[of "users_prologue cfg (users_file e)"]
      waited_nonneg[of "users_summary s'"]
    by (simp add: tr waited_append)
  with a t tr th len show ?thesis unfolding throttled_def by auto
qed

lemma run_organizations_throttle:
  assumes "run_organizations e w = Some (Completed s')" "startup e = Inr cfg"
    "readFile w (organizations_file e) = Inr recs"
  shows "(\<exists>segs. list_all2 (org_segment cfg w) (slice (OFFSET cfg) recs) segs \<and>
            list_all (\<lambda>seg. throttles seg = []) segs \<and>
            trace s' = organizations_prologue cfg (organizations_file e) @
              concat (map (\<lambda>seg. Cooldown (DELAY cfg) # seg) segs) @ organizations_summary s') \<and>
         throttles (trace s') = replicate (length (slice (OFFSET cfg) recs)) (DELAY cfg) \<and>
         int (length (slice (OFFSET cfg) recs)) * timer_duration (DELAY cfg) \<le> waited (trace s')"
proof -
  from run_organizations_completed[OF assms] obtain segs where
    a: "list_all2 (org_segment cfg w) (slice (OFFSET cfg) recs) segs" and
    t: "list_all (\<lambda>seg. throttles seg = []) segs" and
    tr: "trace s' = organizations_prologue cfg (organizations_file e) @ throttled cfg segs @
           organizations_summary s'"
    by blast
  from a have len: "length segs = length (slice (OFFSET cfg) recs)"
    by (auto dest: list_all2_lengthD)
  have th: "throttles (trace s') = replicate (length (slice (OFFSET cfg) recs)) (DELAY cfg)"
    by (simp add: tr throttles_append throttles_throttled[OF t] organizations_frame len)
  have "int (length segs) * timer_duration (DELAY cfg) \<le> waited (trace s')"
    using waited_throttled[of segs cfg] waited_nonneg[of "organizations_prologue cfg (organizations_file e)"]
      waited_nonneg[of "organizations_summary s'"]
    by (simp add: tr waited_append)
  with a t tr th len show ?thesis unfolding throttled_def by auto
qed

text \<open>
  Claim C8, as amended. In a run that completes, the segment of every
  processed record, the first included, comes directly after an inter-record
  wait set with the configured delay, and no other such wait occurs. Each of
  these waits lasts as long as its timer: the configured delay when that is
  between 1 and \<open>2\<^sup>3\<^sup>1 - 1\<close> milliseconds, and 1 millisecond otherwise. So
  for a configured delay between 0 and \<open>2\<^sup>3\<^sup>1 - 1\<close>, the run over \<open>N\<close>
  processed records spends at least \<open>N\<close> times the delay waiting. Both entry
  points.
\<close>

theorem throttle_before_each_record:
  "(run_users e w = Some (Completed s') \<and> startup e = Inr cfg \<and>
    readFile w (users_file e) = Inr recs \<longrightarrow>
      (\<exists>segs. list_all2 (user_segment cfg w) (slice (OFFSET cfg) recs) segs \<and>
         list_all (\<lambda>seg. throttles seg = []) segs \<and>
         trace s' = users_prologue cfg (users_file e) @
           concat (map (\<lambda>seg. Cooldown (DELAY cfg) # seg) segs) @ users_summary s') \<and>
      throttles (trace s') = replicate (length (slice (OFFSET cfg) recs)) (DELAY cfg) \<and>
      int (length (slice (OFFSET cfg) recs)) * timer_duration (DELAY cfg) \<le> waited (trace s') \<and>
      (0 \<le> DELAY cfg \<and> DELAY cfg \<le> TIMEOUT_MAX \<longrightarrow>
         int (length (slice (OFFSET cfg) recs)) * DELAY cfg \<le> waited (trace s'))) \<and>
   (run_organizations e w = Some (Completed s') \<and> startup e = Inr cfg \<and>
    readFile w (organizations_file e) = Inr recs \<longrightarrow>
      (\<exists>segs. list_all2 (org_segment cfg w) (slice (OFFSET cfg) recs) segs \<and>
         list_all (\<lambda>seg. throttles seg = []) segs \<and>
         trace s' = organizations_prologue cfg (organizations_file e) @
           concat (map (\<lambda>seg. Cooldown (DELAY cfg) # seg) segs) @ organizations_summary s') \<and>
      throttles (trace s') = replicate (length (slice (OFFSET cfg) recs)) (DELAY cfg) \<and>
      int (length (slice (OFFSET cfg) recs)) * timer_duration (DELAY cfg) \<le> waited (trace s') \<and>
      (0 \<le> DELAY cfg \<and> DELAY cfg \<le> TIMEOUT_MAX \<longrightarrow>
         int (length (slice (OFFSET cfg) recs)) * DELAY cfg \<le> waited (trace s')))"
proof -
  have bound: "int n * DELAY cfg \<le> x"
    if "int n * timer_duration (DELAY cfg) \<le> x" "0 \<le> DELAY cfg" "DELAY cfg \<le> TIMEOUT_MAX"
    for n x
  proof -
    from timer_duration_in_range[OF that(2,3)]
    have "int n * DELAY cfg \<le> int n * timer_duration (DELAY cfg)"
      by (intro mult_left_mono) simp_all
    with that(1) show ?thesis by simp
  qed
  show ?thesis
    using run_users_throttle[of e w s' cfg recs] run_organizations_throttle[of e w s' cfg recs]
      bound[of "length (slice (OFFSET cfg) recs)" "waited (trace s')"]
    by blast
qed

theorem throttle_before_each_record_witness:
  "(\<exists>s'. run_users example_env example_world = Some (Completed s') \<and>
      throttles (trace s') = [1000, 1000, 1000] \<and> 3000 \<le> waited (trace s')) \<and>
   (\<exists>s'. run_organizations example_env example_world = Some (Completed s') \<and>
      throttles (trace s') = [1000, 1000] \<and> 2000 \<le> waited (trace s'))"
proof
  from example_users_run obtain s' where
    run: "run_users example_env example_world = Some (Completed s')" by blast
  have "throttles (trace s') =
          replicate (length (slice (OFFSET example_config)
             [good_record ''1'', bad_record, good_record ''3''])) (DELAY example_config) \<and>
        int (length (slice (OFFSET example_config)
             [good_record ''1'', bad_record, good_record ''3''])) * DELAY example_config
          \<le> waited (trace s')"
    using mp[OF conjunct1[OF throttle_before_each_record[of example_env example_world s'
        example_config "[good_record ''1'', bad_record, good_record ''3'']"]]]
      run example_startup example_users_file
    by (simp add: example_config_def TIMEOUT_MAX_def)
  then have "throttles (trace s') = [1000, 1000, 1000] \<and> 3000 \<le> waited (trace s')"
    by (simp add: example_config_def slice_def numeral_3_eq_3)
  with run show "\<exists>s'. run_users example_env example_world = Some (Completed s') \<and>
      throttles (trace s') = [1000, 1000, 1000] \<and> 3000 \<le> waited (trace s')"
    by blast
next
  from example_organizations_run obtain s' where
    run: "run_organizations example_env example_world = Some (Completed s')" by blast
  have "throttles (trace s') =
          replicate (length (slice (OFFSET example_config) [good_org ''A'', good_org ''B'']))
            (DELAY example_config) \<and>
        int (length (slice (OFFSET example_config) [good_org ''A'', good_org ''B''])) *
            DELAY example_config \<le> waited (trace s')"
    using mp[OF conjunct2[OF throttle_before_each_record[of example_env example_world s'
        example_config "[good_org ''A'', good_org ''B'']"]]]
      run example_startup example_organizations_file
    by (simp add: example_config_def TIMEOUT_MAX_def)
  then have "throttles (trace s') = [1000, 1000] \<and> 2000 \<le> waited (trace s')"
    by (simp add: example_config_def slice_def numeral_2_eq_2)
  with run show "\<exists>s'. run_organizations example_env example_world = Some (Completed s') \<and>
      throttles (trace s') = [1000, 1000] \<and> 2000 \<le> waited (trace s')"
    by blast
qed

lemma good_record_valid_single:
  "userSchema_safeParse single_world (good_record i) = Inr (example_user i)"
  by (simp add: userSchema_safeParse_def userSchema_object_def userSchema_issues_def issue_def
       oid_object_def email_string_def required_string_def optional_string_def
       optional_boolean_def good_record_def example_world_def single_world_def
       user_with_password_def example_user_def)

lemma single_createUser:
  "users_createUser single_world t p =
     (if t = 1 then Inl (GatewayError (Some 429) ''rate'') else Inr ())"
  by (simp add: single_world_def example_world_def)

lemma slow_startup: "startup slow_env = Inr slow_config"
  by (simp add: startup_def slow_env_def slow_config_def example_env_def example_config_def
        index_def Let_def)

lemma slow_file: "readFile single_world (users_file slow_env) = Inr [good_record ''1'']"
  by (simp add: single_world_def)

lemma slow_run: "run_users slow_env single_world = Some (Completed slow_final)"
  apply (simp add: run_users_unfold[OF slow_startup slow_file] slice_def slow_config_def
           example_config_def)
  apply (simp add: cooldown_def emit_def init_def Let_def)
  apply (subst process_user_unfold)
  apply (simp add: good_record_valid_single single_createUser called_def)
  apply (simp add: slow_final_def init_def users_summary_def users_file_def slow_env_def
           example_env_def slow_config_def example_config_def)
  done

lemma slow_waited: "waited (trace slow_final) = 1"
  by (simp add: slow_final_def waited_append users_prologue_def timer_duration_def
        TIMEOUT_MAX_def)

text \<open>
  Claim C8 as stated fails for a configured delay above \<open>2\<^sup>3\<^sup>1 - 1\<close>: with
  a delay of \<open>2\<^sup>3\<^sup>1\<close> milliseconds the run over one record completes
  after waiting 1 millisecond.
\<close>

theorem throttle_before_each_record_counterexample:
  "run_users slow_env single_world = Some (Completed slow_final) \<and>
   startup slow_env = Inr slow_config \<and>
   readFile single_world (users_file slow_env) = Inr [good_record ''1''] \<and>
   0 \<le> DELAY slow_config \<and>
   length (slice (OFFSET slow_config) [good_record ''1'']) = 1 \<and>
   waited (trace slow_final) = 1 \<and>
   \<not> (int (length (slice (OFFSET slow_config) [good_record ''1''])) * DELAY slow_config
        \<le> waited (trace slow_final))"
  using slow_run slow_startup slow_file slow_waited
  by (simp add: slow_config_def example_config_def slice_def)

section \<open>Records that fail validation\<close>

lemma migrate_users_step:
  "migrate_users cfg w len i (u # rest) s =
     (case processUserToClerk cfg w u (before_record cfg len i s) of
        None \<Rightarrow> None
      | Some (Aborted thrown s4) \<Rightarrow> Some (Aborted thrown s4)
      | Some (Completed s4) \<Rightarrow> migrate_users cfg w len (i + 1) rest s4)"
  by (simp add: before_record_def Let_def)

lemma migrate_organizations_step:
  "migrate_organizations cfg w len i (u # rest) s =
     (case processOrganizationToClerk cfg w u (before_record cfg len i s) of
        None \<Rightarrow> None
      | Some (Aborted thrown s4) \<Rightarrow> Some (Aborted thrown s4)
      | Some (Completed s4) \<Rightarrow> migrate_organizations cfg w len (i + 1) rest s4)"
  by (simp add: before_record_def Let_def)

lemma before_record_state:
  "before_record cfg len i s =
     s\<lparr>spinner_text := migrating_text (i + 1) len, trace := trace s @ [Cooldown (DELAY cfg)]\<rparr>"
  by (simp add: before_record_def cooldown_def emit_def)














section \<open>Conflicts\<close>

lemma org_calls_append: "org_calls (xs @ ys) = org_calls xs @ org_calls ys"
  by (induction xs rule: org_calls.induct) auto

lemma rate_limit_waits_append:
  "rate_limit_waits (xs @ ys) = rate_limit_waits xs @ rate_limit_waits ys"
  by (induction xs rule: rate_limit_waits.induct) auto

lemma getUserByEmail_creator: "fst (getUserByEmail w addr s) = creator_at w addr (clock s)"
  by (auto simp: getUserByEmail_def creator_at_def Let_def index_def
        split: sum.splits list.splits)

lemma getUserByEmail_state:
  "\<exists>pre. snd (getUserByEmail w addr s) =
            s\<lparr>clock := clock s + 1, trace := trace s @ GetUserList [addr] # pre\<rparr> \<and>
         (pre = [] \<or> pre = [ConsoleError ''Error fetching user:''])"
  by (auto simp: getUserByEmail_def Let_def emit_def split: sum.splits)

lemma createOrganization_alt:
  "\<exists>pre. createOrganization w d s =
     (organizations_createOrganization w (clock s + 1) (org_request w d (clock s)),
      s\<lparr>clock := clock s + 2,
        trace := trace s @ GetUserList [org_email d] # pre @
                   [CreateOrganization (org_request w d (clock s))]\<rparr>) \<and>
     (pre = [] \<or> pre = [ConsoleError ''Error fetching user:''])"
proof -
  from getUserByEmail_state[of w "org_email d" s] obtain pre where
    st: "snd (getUserByEmail w (org_email d) s) =
            s\<lparr>clock := clock s + 1, trace := trace s @ GetUserList [org_email d] # pre\<rparr>"
    and pre: "pre = [] \<or> pre = [ConsoleError ''Error fetching user:'']" by blast
  have "createOrganization w d s =
     (organizations_createOrganization w (clock s + 1) (org_request w d (clock s)),
      s\<lparr>clock := clock s + 2,
        trace := trace s @ GetUserList [org_email d] # pre @
                   [CreateOrganization (org_request w d (clock s))]\<rparr>)"
    using st getUserByEmail_creator[of w "org_email d" s]
    by (cases "getUserByEmail w (org_email d) s")
       (simp add: createOrganization_def Let_def org_request_def)
  with pre show ?thesis by blast
qed


lemma process_user_conflict:
  assumes "userSchema_safeParse w u = Inr d"
    "users_createUser w (clock s) (createUser_params d) = Inl err" "status err = Some 422"
  shows "processUserToClerk cfg w u s =
     Some (Completed (s\<lparr>alreadyExists := alreadyExists s + 1, clock := clock s + 1,
             trace := trace s @ [CreateUser (createUser_params d), AppendLog (user_entry u err)]\<rparr>))"
  by (subst process_user_unfold) (simp add: assms appendLog_def emit_def called_def)

lemma process_org_conflict:
  assumes "organizationSchema_safeParse u = Inr d"
    "organizations_createOrganization w (clock s + 1) (org_request w d (clock s)) = Inl err"
    "status err = Some 422"
  shows "\<exists>s'. processOrganizationToClerk cfg w u s = Some (Completed s') \<and>
           alreadyExists s' = alreadyExists s + 1 \<and> migrated s' = migrated s \<and>
           clock s' = clock s + 2 \<and> spinner_text s' = spinner_text s \<and>
           org_calls (trace s') = org_calls (trace s) @ [org_request w d (clock s)] \<and>
           logged (trace s') = logged (trace s) @ [org_entry ''organizationId'' u err] \<and>
           rate_limit_waits (trace s') = rate_limit_waits (trace s) \<and>
           throttles (trace s') = throttles (trace s)"
proof -
  from createOrganization_alt[of w d s] obtain pre where
    c: "createOrganization w d s =
     (organizations_createOrganization w (clock s + 1) (org_request w d (clock s)),
      s\<lparr>clock := clock s + 2,
        trace := trace s @ GetUserList [org_email d] # pre @
                   [CreateOrganization (org_request w d (clock s))]\<rparr>)"
    and pre: "pre = [] \<or> pre = [ConsoleError ''Error fetching user:'']" by blast
  have "processOrganizationToClerk cfg w u s =
          Some (Completed (s\<lparr>alreadyExists := alreadyExists s + 1, clock := clock s + 2,
        trace := trace s @ GetUserList [org_email d] # pre @
                   [CreateOrganization (org_request w d (clock s)),
                    AppendLog (org_entry ''organizationId'' u err)]\<rparr>))"
    using assms by (subst process_org_unfold) (simp add: c appendLog_def emit_def)
  with pre show ?thesis
    by (auto simp: org_calls_append logged_append rate_limit_waits_append throttles_append)
qed

text \<open>
  Claim C3. A validated record whose creation call is answered with status
  422 is settled by that one call: the driver returns, the trace has gained
  exactly one creation request and exactly one log entry, with no rate-limit
  wait, the already-exists counter has grown by one, the migrated counter is
  unchanged, and the loop goes on with the next record. Both entry points.
\<close>

theorem conflict_counted_once:
  "(userSchema_safeParse w u = Inr d \<and>
    users_createUser w (clock s) (createUser_params d) = Inl err \<and> status err = Some 422 \<longrightarrow>
      processUserToClerk cfg w u s =
        Some (Completed (s\<lparr>alreadyExists := alreadyExists s + 1, clock := clock s + 1,
                trace := trace s @ [CreateUser (createUser_params d),
                   AppendLog \<lparr>id_key = ''userId'', record_id = get_prop u ''_id'',
                              details = err\<rparr>]\<rparr>)) \<and>
      migrate_users cfg w len i (u # rest) s =
        migrate_users cfg w len (i + 1) rest
          (s\<lparr>spinner_text := migrating_text (i + 1) len,
             alreadyExists := alreadyExists s + 1, clock := clock s + 1,
             trace := trace s @ [Cooldown (DELAY cfg), CreateUser (createUser_params d),
                AppendLog \<lparr>id_key = ''userId'', record_id = get_prop u ''_id'',
                           details = err\<rparr>]\<rparr>)) \<and>
   (organizationSchema_safeParse u = Inr od \<and>
    organizations_createOrganization w (clock s + 1) (org_request w od (clock s)) = Inl err \<and>
    status err = Some 422 \<longrightarrow>
      (\<exists>s'. processOrganizationToClerk cfg w u s = Some (Completed s') \<and>
         alreadyExists s' = alreadyExists s + 1 \<and> migrated s' = migrated s \<and>
         org_calls (trace s') = org_calls (trace s) @ [org_request w od (clock s)] \<and>
         logged (trace s') = logged (trace s) @
            [\<lparr>id_key = ''organizationId'', record_id = get_prop u ''_id'', details = err\<rparr>] \<and>
         rate_limit_waits (trace s') = rate_limit_waits (trace s)) \<and>
      (\<exists>s'. migrate_organizations cfg w len i (u # rest) s =
              migrate_organizations cfg w len (i + 1) rest s' \<and>
         alreadyExists s' = alreadyExists s + 1 \<and> migrated s' = migrated s \<and>
         org_calls (trace s') = org_calls (trace s) @ [org_request w od (clock s)] \<and>
         logged (trace s') = logged (trace s) @
            [\<lparr>id_key = ''organizationId'', record_id = get_prop u ''_id'', details = err\<rparr>] \<and>
         rate_limit_waits (trace s') = rate_limit_waits (trace s)))"
proof (intro conjI impI; (elim conjE)?)
  assume a: "userSchema_safeParse w u = Inr d"
    "users_createUser w (clock s) (createUser_params d) = Inl err" "status err = Some 422"
  from process_user_conflict[OF a]
  show "processUserToClerk cfg w u s =
        Some (Completed (s\<lparr>alreadyExists := alreadyExists s + 1, clock := clock s + 1,
                trace := trace s @ [CreateUser (createUser_params d),
                   AppendLog \<lparr>id_key = ''userId'', record_id = get_prop u ''_id'',
                              details = err\<rparr>]\<rparr>))"
    by (simp add: user_entry_def)
  have b: "users_createUser w (clock (before_record cfg len i s)) (createUser_params d) = Inl err"
    using a(2) by (simp add: before_record_state)
  show "migrate_users cfg w len i (u # rest) s =
        migrate_users cfg w len (i + 1) rest
          (s\<lparr>spinner_text := migrating_text (i + 1) len,
             alreadyExists := alreadyExists s + 1, clock := clock s + 1,
             trace := trace s @ [Cooldown (DELAY cfg), CreateUser (createUser_params d),
                AppendLog \<lparr>id_key = ''userId'', record_id = get_prop u ''_id'',
                           details = err\<rparr>]\<rparr>)"
    by (simp only: migrate_users_step process_user_conflict[OF a(1) b a(3)])
       (simp add: before_record_state user_entry_def)
next
  assume a: "organizationSchema_safeParse u = Inr od"
    "organizations_createOrganization w (clock s + 1) (org_request w od (clock s)) = Inl err"
    "status err = Some 422"
  from process_org_conflict[OF a, of cfg]
  show "\<exists>s'. processOrganizationToClerk cfg w u s = Some (Completed s') \<and>
         alreadyExists s' = alreadyExists s + 1 \<and> migrated s' = migrated s \<and>
         org_calls (trace s') = org_calls (trace s) @ [org_request w od (clock s)] \<and>
         logged (trace s') = logged (trace s) @
            [\<lparr>id_key = ''organizationId'', record_id = get_prop u ''_id'', details = err\<rparr>] \<and>
         rate_limit_waits (trace s') = rate_limit_waits (trace s)"
    by (auto simp: org_entry_def)
  have b: "organizations_createOrganization w (clock (before_record cfg len i s) + 1)
             (org_request w od (clock (before_record cfg len i s))) = Inl err"
    using a(2) by (simp add: before_record_state)
  from process_org_conflict[OF a(1) b a(3), of cfg] obtain s' where
    p: "processOrganizationToClerk cfg w u (before_record cfg len i s) = Some (Completed s')" and
    f: "alreadyExists s' = alreadyExists (before_record cfg len i s) + 1"
      "migrated s' = migrated (before_record cfg len i s)"
      "org_calls (trace s') = org_calls (trace (before_record cfg len i s)) @
          [org_request w od (clock (before_record cfg len i s))]"
      "logged (trace s') = logged (trace (before_record cfg len i s)) @
          [org_entry ''organizationId'' u err]"
      "rate_limit_waits (trace s') = rate_limit_waits (trace (before_record cfg len i s))"
    by blast
  have "migrate_organizations cfg w len i (u # rest) s =
              migrate_organizations cfg w len (i + 1) rest s'"
    by (simp only: migrate_organizations_step p) simp
  moreover from f have "alreadyExists s' = alreadyExists s + 1 \<and> migrated s' = migrated s \<and>
         org_calls (trace s') = org_calls (trace s) @ [org_request w od (clock s)] \<and>
         logged (trace s') = logged (trace s) @
            [\<lparr>id_key = ''organizationId'', record_id = get_prop u ''_id'', details = err\<rparr>] \<and>
         rate_limit_waits (trace s') = rate_limit_waits (trace s)"
    by (simp add: before_record_state org_calls_append logged_append rate_limit_waits_append
          org_entry_def)
  ultimately show "\<exists>s'. migrate_organizations cfg w len i (u # rest) s =
              migrate_organizations cfg w len (i + 1) rest s' \<and>
         alreadyExists s' = alreadyExists s + 1 \<and> migrated s' = migrated s \<and>
         org_calls (trace s') = org_calls (trace s) @ [org_request w od (clock s)] \<and>
         logged (trace s') = logged (trace s) @
            [\<lparr>id_key = ''organizationId'', record_id = get_prop u ''_id'', details = err\<rparr>] \<and>
         rate_limit_waits (trace s') = rate_limit_waits (trace s)"
    by blast
qed


lemma good_record_valid_conflict:
  "userSchema_safeParse conflict_world (good_record i) = Inr (example_user i)"
  by (simp add: userSchema_safeParse_def userSchema_object_def userSchema_issues_def issue_def
       oid_object_def email_string_def required_string_def optional_string_def
       optional_boolean_def
       good_record_def example_world_def conflict_world_def user_with_password_def example_user_def)

theorem conflict_counted_once_witness:
  "processUserToClerk example_config conflict_world (good_record ''1'') init =
     Some (Completed (init\<lparr>alreadyExists := 1, clock := 1,
             trace := [CreateUser (createUser_params (example_user ''1'')),
                AppendLog \<lparr>id_key = ''userId'', record_id = Some (JObj [(''$oid'', JStr ''1'')]),
                           details = GatewayError (Some 422) ''taken''\<rparr>]\<rparr>)) \<and>
   (\<exists>s'. processOrganizationToClerk example_config example_world (good_org ''B'')
            (init\<lparr>clock := 4\<rparr>) = Some (Completed s') \<and>
      alreadyExists s' = 1 \<and> migrated s' = 0 \<and>
      org_calls (trace s') = [example_org_params ''B'' []] \<and>
      logged (trace s') =
        [\<lparr>id_key = ''organizationId'', record_id = Some (JObj [(''$oid'', JStr ''B'')]),
          details = GatewayError (Some 422) ''taken''\<rparr>] \<and>
      rate_limit_waits (trace s') = [])"
proof
  have c: "users_createUser conflict_world (clock init) (createUser_params (example_user ''1'')) =
             Inl (GatewayError (Some 422) ''taken'')"
    by (simp add: conflict_world_def)
  have id: "get_prop (good_record ''1'') ''_id'' = Some (JObj [(''$oid'', JStr ''1'')])"
    by (simp add: get_prop_def good_record_def)
  from conflict_counted_once[where w = conflict_world and u = "good_record ''1''"
      and d = "example_user ''1''" and s = init
      and err = "GatewayError (Some 422) ''taken''" and cfg = example_config, THEN conjunct1]
    good_record_valid_conflict[of "''1''"] c
  show "processUserToClerk example_config conflict_world (good_record ''1'') init =
     Some (Completed (init\<lparr>alreadyExists := 1, clock := 1,
             trace := [CreateUser (createUser_params (example_user ''1'')),
                AppendLog \<lparr>id_key = ''userId'', record_id = Some (JObj [(''$oid'', JStr ''1'')]),
                           details = GatewayError (Some 422) ''taken''\<rparr>]\<rparr>))"
    by (simp add: id init_def)
next
  have r: "org_request example_world (example_org ''B'') 4 = example_org_params ''B'' []"
    by (simp add: org_request_def example_org_def example_org_params_def creator_at_def
          example_getUserList)
  have c: "organizations_createOrganization example_world (clock (init\<lparr>clock := 4\<rparr>) + 1)
             (org_request example_world (example_org ''B'') (clock (init\<lparr>clock := 4\<rparr>))) =
           Inl (GatewayError (Some 422) ''taken'')"
    by (simp add: example_createOrganization)
  have id: "get_prop (good_org ''B'') ''_id'' = Some (JObj [(''$oid'', JStr ''B'')])"
    by (simp add: get_prop_def good_org_def)
  from conflict_counted_once[where w = example_world and u = "good_org ''B''"
      and od = "example_org ''B''" and s = "init\<lparr>clock := 4\<rparr>"
      and err = "GatewayError (Some 422) ''taken''" and cfg = example_config, THEN conjunct2]
    good_org_valid[of "''B''"] c
  show "\<exists>s'. processOrganizationToClerk example_config example_world (good_org ''B'')
            (init\<lparr>clock := 4\<rparr>) = Some (Completed s') \<and>
      alreadyExists s' = 1 \<and> migrated s' = 0 \<and>
      org_calls (trace s') = [example_org_params ''B'' []] \<and>
      logged (trace s') =
        [\<lparr>id_key = ''organizationId'', record_id = Some (JObj [(''$oid'', JStr ''B'')]),
          details = GatewayError (Some 422) ''taken''\<rparr>] \<and>
      rate_limit_waits (trace s') = []"
    by (simp add: id r init_def)
qed

section \<open>The creator lookup\<close>

lemma process_org_created:
  assumes "organizationSchema_safeParse u = Inr d"
    "organizations_createOrganization w (clock s + 1) (org_request w d (clock s)) = Inr x"
  shows "\<exists>s'. processOrganizationToClerk cfg w u s = Some (Completed s') \<and>
           migrated s' = migrated s + 1 \<and> alreadyExists s' = alreadyExists s \<and>
           clock s' = clock s + 2 \<and> spinner_text s' = spinner_text s \<and>
           org_calls (trace s') = org_calls (trace s) @ [org_request w d (clock s)] \<and>
           logged (trace s') = logged (trace s) \<and>
           rate_limit_waits (trace s') = rate_limit_waits (trace s) \<and>
           throttles (trace s') = throttles (trace s)"
proof -
  from createOrganization_alt[of w d s] obtain pre where
    c: "createOrganization w d s =
     (organizations_createOrganization w (clock s + 1) (org_request w d (clock s)),
      s\<lparr>clock := clock s + 2,
        trace := trace s @ GetUserList [org_email d] # pre @
                   [CreateOrganization (org_request w d (clock s))]\<rparr>)"
    and pre: "pre = [] \<or> pre = [ConsoleError ''Error fetching user:'']" by blast
  have "processOrganizationToClerk cfg w u s =
          Some (Completed (s\<lparr>migrated := migrated s + 1, clock := clock s + 2,
        trace := trace s @ GetUserList [org_email d] # pre @
                   [CreateOrganization (org_request w d (clock s))]\<rparr>))"
    using assms by (subst process_org_unfold) (simp add: c)
  with pre show ?thesis
    by (auto simp: org_calls_append logged_append rate_limit_waits_append throttles_append)
qed

lemma creator_at_not_found:
  "users_getUserList w t [addr] = Inl err \<or> users_getUserList w t [addr] = Inr [] \<Longrightarrow>
   creator_at w addr t = []"
  by (auto simp: creator_at_def)

text \<open>
  Claim C9. The lookup of a user by email returns a value in every case: the
  first listed user's id, and the empty string when the remote call fails or
  lists nobody. In that case the organization is still sent for creation, with
  the empty string as its creator, and is counted as migrated when the
  creation succeeds.
\<close>

theorem lookup_degrades_to_empty_creator:
  "(case users_getUserList w (clock s) [addr] of
      Inr (u0 # us) \<Rightarrow> fst (getUserByEmail w addr s) = user_id u0
    | Inr [] \<Rightarrow> fst (getUserByEmail w addr s) = [] \<and>
        trace (snd (getUserByEmail w addr s)) = trace s @ [GetUserList [addr]]
    | Inl err \<Rightarrow> fst (getUserByEmail w addr s) = [] \<and>
        trace (snd (getUserByEmail w addr s)) =
          trace s @ [GetUserList [addr], ConsoleError ''Error fetching user:'']) \<and>
   (organizationSchema_safeParse u = Inr d \<and>
    (users_getUserList w (clock s) [org_email d] = Inl err \<or>
     users_getUserList w (clock s) [org_email d] = Inr []) \<and>
    organizations_createOrganization w (clock s + 1)
      \<lparr>name = organization_name d, createdBy = [],
       org_privateMetadata = \<lparr>org_mongoId = org_oid d, external_id = org_oid d\<rparr>\<rparr> = Inr x \<longrightarrow>
    (\<exists>s'. processOrganizationToClerk cfg w u s = Some (Completed s') \<and>
       migrated s' = migrated s + 1 \<and> alreadyExists s' = alreadyExists s \<and>
       org_calls (trace s') = org_calls (trace s) @
         [\<lparr>name = organization_name d, createdBy = [],
           org_privateMetadata = \<lparr>org_mongoId = org_oid d, external_id = org_oid d\<rparr>\<rparr>] \<and>
       logged (trace s') = logged (trace s)))"
proof (intro conjI impI; (elim conjE)?)
  show "case users_getUserList w (clock s) [addr] of
      Inr (u0 # us) \<Rightarrow> fst (getUserByEmail w addr s) = user_id u0
    | Inr [] \<Rightarrow> fst (getUserByEmail w addr s) = [] \<and>
        trace (snd (getUserByEmail w addr s)) = trace s @ [GetUserList [addr]]
    | Inl err \<Rightarrow> fst (getUserByEmail w addr s) = [] \<and>
        trace (snd (getUserByEmail w addr s)) =
          trace s @ [GetUserList [addr], ConsoleError ''Error fetching user:'']"
    by (simp add: getUserByEmail_def Let_def index_def emit_def split: sum.splits list.splits)
next
  assume a: "organizationSchema_safeParse u = Inr d"
    "users_getUserList w (clock s) [org_email d] = Inl err \<or>
     users_getUserList w (clock s) [org_email d] = Inr []"
    "organizations_createOrganization w (clock s + 1)
      \<lparr>name = organization_name d, createdBy = [],
       org_privateMetadata = \<lparr>org_mongoId = org_oid d, external_id = org_oid d\<rparr>\<rparr> = Inr x"
  have r: "org_request w d (clock s) = \<lparr>name = organization_name d, createdBy = [],
       org_privateMetadata = \<lparr>org_mongoId = org_oid d, external_id = org_oid d\<rparr>\<rparr>"
    by (simp add: org_request_def creator_at_not_found[OF a(2)])
  from a(3) have "organizations_createOrganization w (clock s + 1) (org_request w d (clock s)) = Inr x"
    by (simp add: r)
  from process_org_created[OF a(1) this, of cfg]
  show "\<exists>s'. processOrganizationToClerk cfg w u s = Some (Completed s') \<and>
       migrated s' = migrated s + 1 \<and> alreadyExists s' = alreadyExists s \<and>
       org_calls (trace s') = org_calls (trace s) @
         [\<lparr>name = organization_name d, createdBy = [],
           org_privateMetadata = \<lparr>org_mongoId = org_oid d, external_id = org_oid d\<rparr>\<rparr>] \<and>
       logged (trace s') = logged (trace s)"
    by (auto simp: r)
qed


theorem lookup_degrades_to_empty_creator_witness:
  "fst (getUserByEmail example_world ''a@b.se'' init) = ''user_1'' \<and>
   fst (getUserByEmail lookup_down_world ''a@b.se'' init) = [] \<and>
   (\<exists>s'. processOrganizationToClerk example_config lookup_down_world (good_org ''A'') init =
           Some (Completed s') \<and>
      migrated s' = 1 \<and> alreadyExists s' = 0 \<and>
      org_calls (trace s') = [example_org_params ''A'' []] \<and> logged (trace s') = [])"
proof (intro conjI)
  from lookup_degrades_to_empty_creator[where w = example_world and s = init
      and addr = "''a@b.se''", THEN conjunct1]
  show "fst (getUserByEmail example_world ''a@b.se'' init) = ''user_1''"
    by (simp add: example_getUserList init_def)
  from lookup_degrades_to_empty_creator[where w = lookup_down_world and s = init
      and addr = "''a@b.se''", THEN conjunct1]
  show "fst (getUserByEmail lookup_down_world ''a@b.se'' init) = []"
    by (simp add: lookup_down_world_def)
  have l: "users_getUserList lookup_down_world (clock init) [org_email (example_org ''A'')] =
             Inl (GatewayError None ''network'')"
    by (simp add: lookup_down_world_def)
  have c: "organizations_createOrganization lookup_down_world (clock init + 1)
      \<lparr>name = organization_name (example_org ''A''), createdBy = [],
       org_privateMetadata = \<lparr>org_mongoId = org_oid (example_org ''A''),
                              external_id = org_oid (example_org ''A'')\<rparr>\<rparr> = Inr ()"
    by (simp add: lookup_down_world_def)
  from lookup_degrades_to_empty_creator[where w = lookup_down_world and s = init
      and u = "good_org ''A''" and d = "example_org ''A''" and cfg = example_config
      and err = "GatewayError None ''network''" and x = "()", THEN conjunct2]
    good_org_valid[of "''A''"] l c
  show "\<exists>s'. processOrganizationToClerk example_config lookup_down_world (good_org ''A'') init =
           Some (Completed s') \<and>
      migrated s' = 1 \<and> alreadyExists s' = 0 \<and>
      org_calls (trace s') = [example_org_params ''A'' []] \<and> logged (trace s') = []"
    by (simp add: init_def example_org_def example_org_params_def)
qed

section \<open>Rate limits\<close>

lemma concat_replicate_snoc: "concat (replicate m xs) @ xs = xs @ concat (replicate m xs)"
  by (induction m) simp_all

lemma process_user_retries:
  assumes "userSchema_safeParse w u = Inr d"
    "\<forall>j<m. \<exists>err. users_createUser w (clock s + j) (createUser_params d) = Inl err \<and>
                  status err = Some 429"
  shows "processUserToClerk cfg w u s =
         processUserToClerk cfg w u
           (s\<lparr>clock := clock s + m,
              trace := trace s @ concat (replicate m [CreateUser (createUser_params d),
                                                       RateLimitCooldown (RETRY_DELAY cfg)])\<rparr>)"
  using assms(2)
proof (induction m)
  case 0
  show ?case by simp
next
  case (Suc m)
  let ?sm = "s\<lparr>clock := clock s + m,
              trace := trace s @ concat (replicate m [CreateUser (createUser_params d),
                                                       RateLimitCooldown (RETRY_DELAY cfg)])\<rparr>"
  from Suc.prems have "\<forall>j<m. \<exists>err. users_createUser w (clock s + j) (createUser_params d) = Inl err \<and>
                  status err = Some 429" by simp
  from Suc.IH[OF this] have "processUserToClerk cfg w u s = processUserToClerk cfg w u ?sm" .
  also from Suc.prems obtain err where
    "users_createUser w (clock ?sm) (createUser_params d) = Inl err" "status err = Some 429"
    by auto
  then have "processUserToClerk cfg w u ?sm =
      processUserToClerk cfg w u (rateLimitCooldown cfg (called d ?sm))"
    by (subst process_user_unfold) (simp add: assms(1))
  also have "rateLimitCooldown cfg (called d ?sm) =
      s\<lparr>clock := clock s + Suc m,
        trace := trace s @ concat (replicate (Suc m) [CreateUser (createUser_params d),
                                                       RateLimitCooldown (RETRY_DELAY cfg)])\<rparr>"
    using concat_replicate_snoc[of m "[CreateUser (createUser_params d),
                                                       RateLimitCooldown (RETRY_DELAY cfg)]"]
    by (simp add: rateLimitCooldown_def called_def emit_def)
  finally show ?case .
qed

lemma process_user_aborted:
  "processUserToClerk cfg w u s = Some (Aborted thrown s') \<Longrightarrow> u = JNull"
proof -
  have "\<forall>thrown s'. r = Aborted thrown s' \<longrightarrow> u = JNull"
    if "processUserToClerk cfg w u s = Some r" for r
    using that
  proof (induction cfg w u s r rule: processUserToClerk.raw_induct[rotated 1, consumes 1])
    case (1 f cfg w u s r)
    note ih = 1(1) and body = 1(2)
    show ?case
    proof (intro allI impI, rule ccontr)
      fix thrown s'
      assume r: "r = Aborted thrown s'" and n: "u \<noteq> JNull"
      show False
      proof (cases "userSchema_safeParse w u")
        case (Inl e)
        with body userSchema_error_status[OF Inl] r n show False
          by (simp add: Let_def read_property_def)
      next
        case (Inr d)
        show False
        proof (cases "users_createUser w (clock s) (createUser_params d)")
          case (Inr x)
          with body \<open>userSchema_safeParse w u = Inr d\<close> r show False
            by (simp add: Let_def createUser_def)
        next
          case (Inl e)
          show False
          proof (cases "status e = Some 429")
            case True
            with body \<open>userSchema_safeParse w u = Inr d\<close> Inl
            have "f cfg w u (rateLimitCooldown cfg (called d s)) = Some r"
              by (simp add: Let_def createUser_def called_def rateLimitCooldown_def emit_def)
            from ih[OF this] r n show False by simp
          next
            case False
            with body \<open>userSchema_safeParse w u = Inr d\<close> Inl r n show False
              by (simp add: Let_def createUser_def read_property_def split: if_splits)
          qed
        qed
      qed
    qed
  qed
  then show "processUserToClerk cfg w u s = Some (Aborted thrown s') \<Longrightarrow> u = JNull"
    by blast
qed

lemma process_org_aborted:
  "processOrganizationToClerk cfg w u s = Some (Aborted thrown s') \<Longrightarrow> u = JNull"
proof -
  have "\<forall>thrown s'. r = Aborted thrown s' \<longrightarrow> u = JNull"
    if "processOrganizationToClerk cfg w u s = Some r" for r
    using that
  proof (induction cfg w u s r rule: processOrganizationToClerk.raw_induct[rotated 1, consumes 1])
    case (1 f cfg w u s r)
    note ih = 1(1) and body = 1(2)
    show ?case
    proof (intro allI impI, rule ccontr)
      fix thrown s'
      assume r: "r = Aborted thrown s'" and n: "u \<noteq> JNull"
      show False
      proof (cases "organizationSchema_safeParse u")
        case (Inl e)
        with body organizationSchema_error_status[OF Inl] r n show False
          by (simp add: Let_def read_property_def)
      next
        case (Inr d)
        obtain a s1 where att: "createOrganization w d s = (a, s1)"
          by (cases "createOrganization w d s")
        show False
        proof (cases a)
          case (Inr x)
          with body \<open>organizationSchema_safeParse u = Inr d\<close> att r show False
            by (simp add: Let_def)
        next
          case (Inl e)
          show False
          proof (cases "status e = Some 429")
            case True
            with body \<open>organizationSchema_safeParse u = Inr d\<close> att Inl
            have "f cfg w u ((rateLimitCooldown cfg
                 (s1\<lparr>spinner_text := rate_limit_text (spinner_text s) cfg\<rparr>))
                \<lparr>spinner_text := spinner_text s\<rparr>) = Some r"
              by (simp add: Let_def)
            from ih[OF this] r n show False by simp
          next
            case False
            with body \<open>organizationSchema_safeParse u = Inr d\<close> att Inl r n show False
              by (simp add: Let_def read_property_def split: if_splits)
          qed
        qed
      qed
    qed
  qed
  then show "processOrganizationToClerk cfg w u s = Some (Aborted thrown s') \<Longrightarrow> u = JNull"
    by blast
qed

lemma process_user_rate_limited_forever:
  assumes "userSchema_safeParse w u = Inr d"
    "\<forall>t\<ge>clock s. \<exists>err. users_createUser w t (createUser_params d) = Inl err \<and>
                  status err = Some 429"
  shows "processUserToClerk cfg w u s = None"
proof (rule ccontr)
  assume "processUserToClerk cfg w u s \<noteq> None"
  then obtain r where r: "processUserToClerk cfg w u s = Some r" by blast
  from process_user_aborted[of cfg w u s] r userSchema_valid_not_null[OF assms(1)]
  obtain s' where "processUserToClerk cfg w u s = Some (Completed s')"
    by (cases r) auto
  then have "\<exists>t\<ge>clock s. \<forall>err. users_createUser w t (createUser_params d) = Inl err \<longrightarrow>
                  status err \<noteq> Some 429"
  proof (induction rule: process_user_induct)
    case (invalid s e)
    with assms(1) show ?case by simp
  next
    case (created s d' x)
    with assms(1) have "users_createUser w (clock s) (createUser_params d) = Inr x" by simp
    then show ?case by (intro exI[of _ "clock s"]) simp
  next
    case (conflict s d' e)
    with assms(1) have "users_createUser w (clock s) (createUser_params d) = Inl e" by simp
    with conflict(3) show ?case by (intro exI[of _ "clock s"]) simp
  next
    case (retry s d' e s')
    then obtain t where "t \<ge> clock (rateLimitCooldown cfg (called d' s))"
      "\<forall>err. users_createUser w t (createUser_params d) = Inl err \<longrightarrow> status err \<noteq> Some 429"
      by blast
    then show ?case
      by (intro exI[of _ t]) (simp add: rateLimitCooldown_def called_def emit_def)
  next
    case (failed s d' e)
    with assms(1) have "users_createUser w (clock s) (createUser_params d) = Inl e" by simp
    with failed(4) show ?case by (intro exI[of _ "clock s"]) simp
  qed
  with assms(2) show False by blast
qed


lemma createOrganization_exact:
  "createOrganization w d s =
     (organizations_createOrganization w (clock s + 1) (org_request w d (clock s)),
      s\<lparr>clock := clock s + 2, trace := trace s @ org_attempt w d (clock s)\<rparr>)"
  by (cases "users_getUserList w (clock s) [org_email d]")
     (auto simp: createOrganization_def getUserByEmail_def Let_def emit_def org_attempt_def
        lookup_events_def org_request_def creator_at_def index_def split: list.splits)

lemma process_org_retry_step:
  assumes "organizationSchema_safeParse u = Inr d"
    "organizations_createOrganization w (clock s + 1) (org_request w d (clock s)) = Inl err"
    "status err = Some 429"
  shows "processOrganizationToClerk cfg w u s =
         processOrganizationToClerk cfg w u
           (s\<lparr>clock := clock s + 2,
              trace := trace s @ org_attempt w d (clock s) @
                       [RateLimitCooldown (RETRY_DELAY cfg)]\<rparr>)"
  using assms
  by (subst process_org_unfold)
     (simp add: createOrganization_exact rateLimitCooldown_def emit_def)

lemma process_org_retries:
  assumes "organizationSchema_safeParse u = Inr d"
    "\<forall>j<m. \<exists>err. organizations_createOrganization w (clock s + 2 * j + 1)
                    (org_request w d (clock s + 2 * j)) = Inl err \<and> status err = Some 429"
  shows "processOrganizationToClerk cfg w u s =
         processOrganizationToClerk cfg w u
           (s\<lparr>clock := clock s + 2 * m,
              trace := trace s @
                concat (map (\<lambda>j. org_attempt w d (clock s + 2 * j) @
                                   [RateLimitCooldown (RETRY_DELAY cfg)]) [0..<m])\<rparr>)"
  using assms(2)
proof (induction m)
  case 0
  show ?case by simp
next
  case (Suc m)
  let ?sm = "s\<lparr>clock := clock s + 2 * m,
              trace := trace s @
                concat (map (\<lambda>j. org_attempt w d (clock s + 2 * j) @
                                   [RateLimitCooldown (RETRY_DELAY cfg)]) [0..<m])\<rparr>"
  from Suc.prems have "\<forall>j<m. \<exists>err. organizations_createOrganization w (clock s + 2 * j + 1)
                    (org_request w d (clock s + 2 * j)) = Inl err \<and> status err = Some 429"
    by simp
  from Suc.IH[OF this]
  have "processOrganizationToClerk cfg w u s = processOrganizationToClerk cfg w u ?sm" .
  also from Suc.prems obtain err where
    "organizations_createOrganization w (clock s + 2 * m + 1)
       (org_request w d (clock s + 2 * m)) = Inl err" "status err = Some 429"
    by blast
  then have "organizations_createOrganization w (clock ?sm + 1) (org_request w d (clock ?sm)) =
      Inl err" "status err = Some 429"
    by simp_all
  from process_org_retry_step[OF assms(1) this, of cfg]
  have "processOrganizationToClerk cfg w u ?sm =
      processOrganizationToClerk cfg w u
        (?sm\<lparr>clock := clock ?sm + 2,
              trace := trace ?sm @ org_attempt w d (clock ?sm) @
                       [RateLimitCooldown (RETRY_DELAY cfg)]\<rparr>)" .
  also have "?sm\<lparr>clock := clock ?sm + 2,
              trace := trace ?sm @ org_attempt w d (clock ?sm) @
                       [RateLimitCooldown (RETRY_DELAY cfg)]\<rparr> =
      s\<lparr>clock := clock s + 2 * Suc m,
        trace := trace s @
          concat (map (\<lambda>j. org_attempt w d (clock s + 2 * j) @
                             [RateLimitCooldown (RETRY_DELAY cfg)]) [0..<Suc m])\<rparr>"
    by simp
  finally show ?case .
qed

lemma process_org_rate_limited_forever:
  assumes "organizationSchema_safeParse u = Inr d"
    "\<forall>t\<ge>clock s. \<forall>req. \<exists>err. organizations_createOrganization w t req = Inl err \<and>
                  status err = Some 429"
  shows "processOrganizationToClerk cfg w u s = None"
proof (rule ccontr)
  assume "processOrganizationToClerk cfg w u s \<noteq> None"
  then obtain r where r: "processOrganizationToClerk cfg w u s = Some r" by blast
  from process_org_aborted[of cfg w u s] r organizationSchema_valid_not_null[OF assms(1)]
  obtain s' where "processOrganizationToClerk cfg w u s = Some (Completed s')"
    by (cases r) auto
  then have "\<exists>t\<ge>clock s. \<exists>req. \<forall>err. organizations_createOrganization w t req = Inl err \<longrightarrow>
                  status err \<noteq> Some 429"
  proof (induction rule: process_org_induct)
    case (invalid s e)
    with assms(1) show ?case by simp
  next
    case (created s d' x s1)
    with createOrganization_alt[of w d' s]
    have "organizations_createOrganization w (clock s + 1) (org_request w d' (clock s)) = Inr x"
      by auto
    then show ?case
      by (intro exI[of _ "clock s + 1"] conjI exI[of _ "org_request w d' (clock s)"]) simp_all
  next
    case (conflict s d' e s1)
    with createOrganization_alt[of w d' s]
    have "organizations_createOrganization w (clock s + 1) (org_request w d' (clock s)) = Inl e"
      by auto
    with conflict(3) show ?case
      by (intro exI[of _ "clock s + 1"] conjI exI[of _ "org_request w d' (clock s)"]) simp_all
  next
    case (retry s d' e s1 s')
    from retry(2) createOrganization_alt[of w d' s] have "clock s1 = clock s + 2" by auto
    moreover from retry obtain t req where
      "t \<ge> clock ((rateLimitCooldown cfg (s1\<lparr>spinner_text := rate_limit_text (spinner_text s) cfg\<rparr>))
                \<lparr>spinner_text := spinner_text s\<rparr>)"
      "\<forall>err. organizations_createOrganization w t req = Inl err \<longrightarrow> status err \<noteq> Some 429"
      by blast
    ultimately show ?case
      by (intro exI[of _ t] conjI exI[of _ req]) (simp_all add: rateLimitCooldown_def emit_def)
  next
    case (failed s d' e s1)
    with createOrganization_alt[of w d' s]
    have "organizations_createOrganization w (clock s + 1) (org_request w d' (clock s)) = Inl e"
      by auto
    with failed(4) show ?case
      by (intro exI[of _ "clock s + 1"] conjI exI[of _ "org_request w d' (clock s)"]) simp_all
  qed
  with assms(2) show False by blast
qed


lemma process_user_retried_success:
  assumes "userSchema_safeParse w u = Inr d"
    "\<forall>j<m. \<exists>err. users_createUser w (clock s + j) (createUser_params d) = Inl err \<and>
                  status err = Some 429"
    "users_createUser w (clock s + m) (createUser_params d) = Inr x"
  shows "processUserToClerk cfg w u s =
     Some (Completed (s\<lparr>migrated := migrated s + 1, clock := clock s + m + 1,
             trace := trace s @ concat (replicate m [CreateUser (createUser_params d),
                                                      RateLimitCooldown (RETRY_DELAY cfg)]) @
                      [CreateUser (createUser_params d)]\<rparr>))"
  using assms(3)
  by (simp only: process_user_retries[OF assms(1,2)])
     (subst process_user_unfold, simp add: assms(1) called_def)

lemma process_org_retried_success:
  assumes "organizationSchema_safeParse u = Inr d"
    "\<forall>j<m. \<exists>err. organizations_createOrganization w (clock s + 2 * j + 1)
                    (org_request w d (clock s + 2 * j)) = Inl err \<and> status err = Some 429"
    "organizations_createOrganization w (clock s + 2 * m + 1)
       (org_request w d (clock s + 2 * m)) = Inr x"
  shows "processOrganizationToClerk cfg w u s =
     Some (Completed (s\<lparr>migrated := migrated s + 1, clock := clock s + 2 * m + 2,
             trace := trace s @
               concat (map (\<lambda>j. org_attempt w d (clock s + 2 * j) @
                                  [RateLimitCooldown (RETRY_DELAY cfg)]) [0..<m]) @
               org_attempt w d (clock s + 2 * m)\<rparr>))"
  using assms(3)
  by (simp only: process_org_retries[OF assms(1,2)])
     (subst process_org_unfold, simp add: assms(1) createOrganization_exact)

text \<open>
  Claim C2. A validated record whose creation call is answered with status
  429 is tried again after a wait of the configured retry cooldown, as often
  as the answer is 429, whatever that number \<open>m\<close> is. When the answer after
  \<open>m\<close> rate limits is a success, the driver returns in the state that has
  the migrated counter raised by one and the trace extended by \<open>m\<close> times an
  attempt followed by the wait, and then the last attempt: \<open>m + 1\<close>
  creation requests built from the same validated record, \<open>m\<close> waits of the
  same duration, each between a failed attempt and the next, and nothing
  logged. An attempt for a user is the creation request; an attempt for an
  organization is the creator lookup followed by the creation request. When
  every answer is 429 the driver never returns, so the record is never
  counted. Both entry points.
\<close>

theorem rate_limit_retry:
  "(userSchema_safeParse w u = Inr d \<and>
    (\<forall>j<m. \<exists>err. users_createUser w (clock s + j) (createUser_params d) = Inl err \<and>
                  status err = Some 429) \<and>
    users_createUser w (clock s + m) (createUser_params d) = Inr x \<longrightarrow>
      processUserToClerk cfg w u s =
        Some (Completed (s\<lparr>migrated := migrated s + 1, clock := clock s + m + 1,
                trace := trace s @ concat (replicate m [CreateUser (createUser_params d),
                                                         RateLimitCooldown (RETRY_DELAY cfg)]) @
                         [CreateUser (createUser_params d)]\<rparr>))) \<and>
   (userSchema_safeParse w u = Inr d \<and>
    (\<forall>t\<ge>clock s. \<exists>err. users_createUser w t (createUser_params d) = Inl err \<and>
                  status err = Some 429) \<longrightarrow>
      processUserToClerk cfg w u s = None) \<and>
   (organizationSchema_safeParse u = Inr od \<and>
    (\<forall>j<m. \<exists>err. organizations_createOrganization w (clock s + 2 * j + 1)
                    (org_request w od (clock s + 2 * j)) = Inl err \<and> status err = Some 429) \<and>
    organizations_createOrganization w (clock s + 2 * m + 1)
       (org_request w od (clock s + 2 * m)) = Inr x \<longrightarrow>
      processOrganizationToClerk cfg w u s =
        Some (Completed (s\<lparr>migrated := migrated s + 1, clock := clock s + 2 * m + 2,
                trace := trace s @
                  concat (map (\<lambda>j. org_attempt w od (clock s + 2 * j) @
                                     [RateLimitCooldown (RETRY_DELAY cfg)]) [0..<m]) @
                  org_attempt w od (clock s + 2 * m)\<rparr>))) \<and>
   (organizationSchema_safeParse u = Inr od \<and>
    (\<forall>t\<ge>clock s. \<forall>req. \<exists>err. organizations_createOrganization w t req = Inl err \<and>
                  status err = Some 429) \<longrightarrow>
      processOrganizationToClerk cfg w u s = None)"
  using process_user_retried_success[of w u d m s x cfg]
    process_user_rate_limited_forever[of w u d s cfg]
    process_org_retried_success[of u od m w s x cfg]
    process_org_rate_limited_forever[of u od s w cfg]
  by blast


lemma good_record_valid_rate_limited:
  "userSchema_safeParse rate_limited_world (good_record i) = Inr (example_user i)"
  by (simp add: userSchema_safeParse_def userSchema_object_def userSchema_issues_def issue_def
       oid_object_def email_string_def required_string_def optional_string_def
       optional_boolean_def
       good_record_def example_world_def rate_limited_world_def user_with_password_def
       example_user_def)

theorem rate_limit_retry_witness:
  "processUserToClerk example_config example_world (good_record ''3'') (init\<lparr>clock := 1\<rparr>) =
     Some (Completed (init\<lparr>migrated := 1, clock := 3,
             trace := [CreateUser (createUser_params (example_user ''3'')),
                       RateLimitCooldown 10000,
                       CreateUser (createUser_params (example_user ''3''))]\<rparr>)) \<and>
   processUserToClerk example_config rate_limited_world (good_record ''3'') init = None \<and>
   processOrganizationToClerk example_config example_world (good_org ''A'') init =
     Some (Completed (init\<lparr>migrated := 1, clock := 4,
             trace := [GetUserList [''a@b.se''],
                       CreateOrganization (example_org_params ''A'' ''user_1''),
                       RateLimitCooldown 10000,
                       GetUserList [''a@b.se''],
                       CreateOrganization (example_org_params ''A'' ''user_1'')]\<rparr>)) \<and>
   processOrganizationToClerk example_config rate_limited_world (good_org ''A'') init = None"
proof (intro conjI)
  have a: "\<forall>j<1. \<exists>err. users_createUser example_world (clock (init\<lparr>clock := 1\<rparr>) + j)
              (createUser_params (example_user ''3'')) = Inl err \<and> status err = Some 429"
    by (simp add: example_createUser)
  have b: "users_createUser example_world (clock (init\<lparr>clock := 1\<rparr>) + 1)
              (createUser_params (example_user ''3'')) = Inr ()"
    by (simp add: example_createUser)
  from rate_limit_retry[where w = example_world and u = "good_record ''3''"
      and d = "example_user ''3''" and m = 1 and s = "init\<lparr>clock := 1\<rparr>" and x = "()"
      and cfg = example_config, THEN conjunct1] good_record_valid[of "''3''"] a b
  show "processUserToClerk example_config example_world (good_record ''3'') (init\<lparr>clock := 1\<rparr>) =
     Some (Completed (init\<lparr>migrated := 1, clock := 3,
             trace := [CreateUser (createUser_params (example_user ''3'')),
                       RateLimitCooldown 10000,
                       CreateUser (createUser_params (example_user ''3''))]\<rparr>))"
    by (simp add: init_def example_config_def)
next
  have a: "\<forall>t\<ge>clock init. \<exists>err. users_createUser rate_limited_world t
              (createUser_params (example_user ''3'')) = Inl err \<and> status err = Some 429"
    by (simp add: rate_limited_world_def)
  from rate_limit_retry[where w = rate_limited_world and u = "good_record ''3''"
      and d = "example_user ''3''" and s = init and cfg = example_config,
      THEN conjunct2, THEN conjunct1] good_record_valid_rate_limited[of "''3''"] a
  show "processUserToClerk example_config rate_limited_world (good_record ''3'') init = None"
    by blast
next
  have r: "org_attempt example_world (example_org ''A'') t =
             [GetUserList [''a@b.se''], CreateOrganization (example_org_params ''A'' ''user_1'')]"
    if "t \<noteq> 4" for t
    using that
    by (simp add: org_attempt_def lookup_events_def org_request_def example_org_def
          example_org_params_def creator_at_def example_getUserList)
  have a: "\<forall>j<1. \<exists>err. organizations_createOrganization example_world (clock init + 2 * j + 1)
              (org_request example_world (example_org ''A'') (clock init + 2 * j)) = Inl err \<and>
              status err = Some 429"
    by (simp add: example_createOrganization init_def)
  have b: "organizations_createOrganization example_world (clock init + 2 * 1 + 1)
              (org_request example_world (example_org ''A'') (clock init + 2 * 1)) = Inr ()"
    by (simp add: example_createOrganization init_def)
  from rate_limit_retry[where w = example_world and u = "good_org ''A''"
      and od = "example_org ''A''" and m = 1 and s = init and x = "()"
      and cfg = example_config, THEN conjunct2, THEN conjunct2, THEN conjunct1]
    good_org_valid[of "''A''"] a b
  show "processOrganizationToClerk example_config example_world (good_org ''A'') init =
     Some (Completed (init\<lparr>migrated := 1, clock := 4,
             trace := [GetUserList [''a@b.se''],
                       CreateOrganization (example_org_params ''A'' ''user_1''),
                       RateLimitCooldown 10000,
                       GetUserList [''a@b.se''],
                       CreateOrganization (example_org_params ''A'' ''user_1'')]\<rparr>))"
    by (simp add: init_def r example_config_def)
next
  have a: "\<forall>t\<ge>clock init. \<forall>req. \<exists>err. organizations_createOrganization rate_limited_world t req =
              Inl err \<and> status err = Some 429"
    by (simp add: rate_limited_world_def)
  from rate_limit_retry[where w = rate_limited_world and u = "good_org ''A''"
      and od = "example_org ''A''" and s = init and cfg = example_config,
      THEN conjunct2, THEN conjunct2, THEN conjunct2] good_org_valid[of "''A''"] a
  show "processOrganizationToClerk example_config rate_limited_world (good_org ''A'') init = None"
    by blast
qed

end
